theory Spec2Isabelle
  imports Complex_Main "HOL-Library.Word" "HOL-Library.AList" "HOL-Library.Multiset"
begin

section \<open>JavaScript values and strings\<close>

text \<open>
  A JavaScript string is a sequence of UTF-16 code units: \<open>value.length\<close> counts code
  units, while \<open>Array.from(value)\<close> walks the string by code point, so that a high
  surrogate followed by a low surrogate is one element of two code units.
\<close>

type_synonym jsstring = "16 word list"

definition utf16 :: "string \<Rightarrow> jsstring" where
  "utf16 cs = map (\<lambda>c. word_of_nat (of_char c)) cs"

definition is_high :: "16 word \<Rightarrow> bool" where
  "is_high u \<longleftrightarrow> 0xD800 \<le> u \<and> u \<le> 0xDBFF"

definition is_low :: "16 word \<Rightarrow> bool" where
  "is_low u \<longleftrightarrow> 0xDC00 \<le> u \<and> u \<le> 0xDFFF"

text \<open>\<open>Array.from(value)\<close> on a string: the string iterator, one element per code point.\<close>

fun Array_from :: "jsstring \<Rightarrow> jsstring list" where
  "Array_from [] = []"
| "Array_from [u] = [[u]]"
| "Array_from (u # v # us) =
     (if is_high u \<and> is_low v then [u, v] # Array_from us
      else [u] # Array_from (v # us))"

text \<open>
  The values the code handles: what \<open>JSON.parse\<close> can return (\<open>Null\<close>, \<open>Bool\<close>,
  \<open>Num\<close>, \<open>Str\<close>, \<open>Arr\<close>, \<open>Obj\<close>), \<open>undefined\<close>, the number \<open>NaN\<close>, and \<open>Native\<close>
  for a value of the runtime that is no JSON value (a method found on a prototype).
  Numbers are only stored, copied and compared, never computed with: they are written as
  reals. An object is the list of its own properties in insertion order, each key once
  (of a key that a JSON text repeats, \<open>JSON.parse\<close> keeps one property).
\<close>

datatype js =
    Undef
  | Native
  | NaN
  | Null
  | Bool bool
  | Num real
  | Str jsstring
  | Arr "js list"
  | Obj "(jsstring \<times> js) list"

text \<open>
  The errors a run can end with; \<open>Error\<close> is an exception of no more special class.
  A known request error of the ORM carries its code:
  \<open>P2002\<close> a unique constraint, \<open>P2025\<close> a record that was not found, \<open>P2000\<close>
  a value the database refuses.
\<close>

datatype prisma_code = P2000 | P2002 | P2025

datatype error =
    SyntaxError
  | TypeError
  | Error
  | PrismaClientValidationError
  | PrismaClientKnownRequestError prisma_code

text \<open>\<open>ToString\<close> of an array index: its decimal digits.\<close>

fun digits :: "nat \<Rightarrow> jsstring" where
  "digits n = (if n < 10 then [word_of_nat (48 + n)]
               else digits (n div 10) @ [word_of_nat (48 + n mod 10)])"

declare digits.simps [simp del]

section \<open>The corruption scrub: \<open>JSON.parse\<close> with a reviver\<close>

text \<open>
  The reviver of both layer-create actions:
  \<^verbatim>\<open>
  (key, value) =>
    typeof value == "string" &&
    value.length == 254 &&
    [...new Set(Array.from(value))].length == 1
      ? ""
      : value
  \<close>
  A \<open>Set\<close> keeps one copy of each distinct element, in insertion order: \<open>remdups\<close>.
\<close>

definition reviver :: "jsstring \<Rightarrow> js \<Rightarrow> js" where
  "reviver key val =
     (case val of
        Str s \<Rightarrow>
          if length s = 254 \<and> length (remdups (Array_from s)) = 1 then Str [] else val
      | _ \<Rightarrow> val)"

text \<open>
  \<open>JSON.parse(text, reviver)\<close> first reads the text, then walks the result bottom-up
  (\<open>InternalizeJSONProperty\<close>): the elements of an array under their index, the
  properties of an object under their key, each replaced by what the reviver returns,
  and last the holder itself. A property for which the reviver returns \<open>undefined\<close>
  is deleted from an object, and left as \<open>undefined\<close> in an array.
\<close>

function (sequential) internalize ::
  "(jsstring \<Rightarrow> js \<Rightarrow> js) \<Rightarrow> jsstring \<Rightarrow> js \<Rightarrow> js" where
  "internalize r name (Arr xs) =
     r name (Arr (map (\<lambda>(i, x). internalize r (digits i) x) (zip [0..<length xs] xs)))"
| "internalize r name (Obj kvs) =
     r name (Obj (filter (\<lambda>(k, v). v \<noteq> Undef)
                    (map (\<lambda>(k, v). (k, internalize r k v)) kvs)))"
| "internalize r name v = r name v"
  by pat_completeness auto
termination
proof (relation "measure (\<lambda>(r, name, v). size v)")
  show "wf (measure (\<lambda>(r, name, v). size v))"
    by simp
next
  fix r :: "jsstring \<Rightarrow> js \<Rightarrow> js" and name :: jsstring
    and xs :: "js list" and p :: "nat \<times> js" and i :: nat and x :: "js"
  assume "p \<in> set (zip [0..<length xs] xs)" and "(i, x) = p"
  then have "x \<in> set xs"
    by (auto dest: set_zip_rightD)
  then have "size x \<le> size_list size xs"
    by (simp add: size_list_estimation')
  then show "((r, digits i, x), (r, name, Arr xs)) \<in> measure (\<lambda>(r, name, v). size v)"
    by simp
next
  fix r :: "jsstring \<Rightarrow> js \<Rightarrow> js" and name :: jsstring
    and kvs :: "(jsstring \<times> js) list" and p :: "jsstring \<times> js"
    and k :: jsstring and v :: "js"
  assume "p \<in> set kvs" and "(k, v) = p"
  then have "(k, v) \<in> set kvs"
    by simp
  then have "size_prod (\<lambda>_. 0) size (k, v) \<le> size_list (size_prod (\<lambda>_. 0) size) kvs"
    by (rule size_list_estimation') simp
  then show "((r, k, v), (r, name, Obj kvs)) \<in> measure (\<lambda>(r, name, v). size v)"
    by simp
qed

text \<open>
  Reading the text is the work of the runtime: \<open>read\<close> is that function, \<open>None\<close>
  where the text is no JSON text and \<open>JSON.parse\<close> throws a \<open>SyntaxError\<close>. The walk
  starts at the root, whose key is the empty string.
\<close>

definition JSON_parse ::
  "(jsstring \<Rightarrow> js option) \<Rightarrow> (jsstring \<Rightarrow> js \<Rightarrow> js) \<Rightarrow> jsstring \<Rightarrow> error + js" where
  "JSON_parse read r text =
     (case read text of
        None \<Rightarrow> Inl SyntaxError
      | Some v \<Rightarrow> Inr (internalize r [] v))"

text \<open>What \<open>JSON.parse\<close> reads from a text holds no \<open>undefined\<close> and no native value.\<close>

fun is_json :: "js \<Rightarrow> bool" where
  "is_json Undef = False"
| "is_json Native = False"
| "is_json NaN = False"
| "is_json (Arr xs) = list_all is_json xs"
| "is_json (Obj kvs) = list_all (\<lambda>(k, v). is_json v) kvs"
| "is_json v = True"

subsection \<open>The scrub as the specification words it\<close>

text \<open>
  A character, as \<open>Array.from\<close> counts them: one code unit, or a surrogate pair.
\<close>

definition js_character :: "jsstring \<Rightarrow> bool" where
  "js_character c \<longleftrightarrow>
     (\<exists>u. c = [u]) \<or> (\<exists>h l. c = [h, l] \<and> is_high h \<and> is_low l)"

text \<open>The string is N copies of one character.\<close>

definition copies_of_one_character :: "jsstring \<Rightarrow> bool" where
  "copies_of_one_character s \<longleftrightarrow>
     (\<exists>c n. js_character c \<and> s = concat (replicate n c))"

definition scrub :: "jsstring \<Rightarrow> jsstring" where
  "scrub s = (if length s = 254 \<and> copies_of_one_character s then [] else s)"

text \<open>Replacing every string value of a parsed tree (keys are not values).\<close>

fun map_strings :: "(jsstring \<Rightarrow> jsstring) \<Rightarrow> js \<Rightarrow> js" where
  "map_strings f (Str s) = Str (f s)"
| "map_strings f (Arr xs) = Arr (map (map_strings f) xs)"
| "map_strings f (Obj kvs) = Obj (map (\<lambda>(k, v). (k, map_strings f v)) kvs)"
| "map_strings f v = v"

section \<open>Sessions, forms and the runtime\<close>

text \<open>
  \<open>Object.fromEntries(await request.formData())\<close>: a field the form did not send reads
  as \<open>undefined\<close>, and \<open>String(undefined)\<close> is the text \<open>undefined\<close>.
\<close>

record form_data =
  fd_features :: "jsstring option"
  fd_name :: "jsstring option"
  fd_field :: "jsstring option"
  fd_surveyId :: "jsstring option"

definition String_of :: "jsstring option \<Rightarrow> jsstring" where
  "String_of x = (case x of None \<Rightarrow> utf16 ''undefined'' | Some s \<Rightarrow> s)"

definition form_value :: "jsstring option \<Rightarrow> js" where
  "form_value x = (case x of None \<Rightarrow> Undef | Some s \<Rightarrow> Str s)"

type_synonym session = "(jsstring \<times> js) list"

definition session_get :: "session \<Rightarrow> jsstring \<Rightarrow> js" where
  "session_get s k = (case map_of s k of None \<Rightarrow> Undef | Some v \<Rightarrow> v)"

definition session_set :: "session \<Rightarrow> jsstring \<Rightarrow> js \<Rightarrow> session" where
  "session_set s k v = AList.update k v s"

record request =
  req_session :: session
  req_form :: form_data

record response =
  location :: jsstring
  set_cookie :: jsstring

text \<open>
  What the code takes from outside the repository, as parameters:
  \<^item> \<open>json_text\<close>: how \<open>JSON.parse\<close> reads a text (\<open>None\<close>: a \<open>SyntaxError\<close>);
  \<^item> \<open>proto_get\<close>: what a property read finds when the key is no own property of a
    plain object (the indices and \<open>length\<close> of arrays and strings, the prototype chain),
    \<open>undefined\<close> when there is nothing;
  \<^item> \<open>parseInt\<close>: a number or \<open>NaN\<close>;
  \<^item> \<open>commitSession\<close>: the cookie header of a session, \<open>None\<close> where it throws (the
    session storage is not part of these files);
  \<^item> \<open>feature_input_valid\<close>: whether an object is a feature input of the ORM's
    generated client (the schema is not part of these files);
  \<^item> \<open>db_accepts\<close>: whether the database stores a feature row (it can refuse a value).
\<close>

record env =
  json_text :: "jsstring \<Rightarrow> js option"
  proto_get :: "js \<Rightarrow> jsstring \<Rightarrow> js"
  parseInt :: "jsstring \<Rightarrow> js"
  commitSession :: "session \<Rightarrow> jsstring option"
  feature_input_valid :: "js \<Rightarrow> bool"
  db_accepts :: "js \<Rightarrow> bool"

text \<open>A property read \<open>v[k]\<close>: a \<open>TypeError\<close> on \<open>undefined\<close> and \<open>null\<close>.\<close>

definition member :: "env \<Rightarrow> js \<Rightarrow> jsstring \<Rightarrow> error + js" where
  "member e v k =
     (case v of
        Undef \<Rightarrow> Inl TypeError
      | Null \<Rightarrow> Inl TypeError
      | Obj kvs \<Rightarrow> (case map_of kvs k of Some x \<Rightarrow> Inr x | None \<Rightarrow> Inr (proto_get e v k))
      | _ \<Rightarrow> Inr (proto_get e v k))"

text \<open>The own enumerable properties that \<open>{...v}\<close> copies.\<close>

definition spread :: "js \<Rightarrow> (jsstring \<times> js) list" where
  "spread v =
     (case v of
        Obj kvs \<Rightarrow> kvs
      | Arr xs \<Rightarrow> map (\<lambda>(i, x). (digits i, x)) (zip [0..<length xs] xs)
      | Str s \<Rightarrow> map (\<lambda>(i, u). (digits i, Str [u])) (zip [0..<length s] s)
      | _ \<Rightarrow> [])"

text \<open>An own property of an object, \<open>undefined\<close> when it has none of that name.\<close>

definition own :: "js \<Rightarrow> jsstring \<Rightarrow> js" where
  "own v k =
     (case v of
        Obj kvs \<Rightarrow> (case map_of kvs k of Some x \<Rightarrow> x | None \<Rightarrow> Undef)
      | _ \<Rightarrow> Undef)"

text \<open>\<open>xs.map(f)\<close> where \<open>f\<close> can throw: the first exception ends the loop.\<close>

fun map_throwing :: "('a \<Rightarrow> error + 'b) \<Rightarrow> 'a list \<Rightarrow> error + 'b list" where
  "map_throwing f [] = Inr []"
| "map_throwing f (x # xs) =
     (case f x of
        Inl err \<Rightarrow> Inl err
      | Inr y \<Rightarrow> (case map_throwing f xs of Inl err \<Rightarrow> Inl err | Inr ys \<Rightarrow> Inr (y # ys)))"

section \<open>The database, as the ORM shows it\<close>

record assignment =
  a_id :: nat
  a_assigneeId :: nat
  a_surveyId :: "nat option"
  a_completed :: bool

record feature_row =
  f_id :: nat
  f_layerId :: nat
  f_geojson :: js
  f_label :: js
  f_assignment :: "assignment option"

record layer_row =
  l_id :: nat
  l_name :: jsstring
  l_labelField :: "jsstring option"
  l_dispatcherId :: "nat option"
  l_admins :: "nat list"
  l_defaultSurveyId :: "nat option"

record db =
  layers :: "layer_row list"
  features :: "feature_row list"
  users :: "nat list"
  surveys :: "nat list"
  layer_seq :: nat
  feature_seq :: nat
  assignment_seq :: nat

text \<open>\<open>Prisma.LayerCreateInput\<close>, as the two actions fill it.\<close>

record LayerCreateInput =
  li_name :: jsstring
  li_labelField :: "jsstring option"
  li_dispatcher :: "js option"
  li_admins :: "js option"
  li_features :: "js option"
  li_defaultSurvey :: "js option"

text \<open>
  \<open>prisma.layer.create\<close> is the ORM's, not this repository's. It is modelled after its
  documented contract. The client first checks the argument against the generated input
  types and throws a validation error before any query (an id of a \<open>connect\<close> is an
  integer, \<open>createMany.data\<close> is one feature input or an array of them). The nested write
  then runs as one transaction: the unique layer name (the loaders read a layer by
  \<open>findUniqueOrThrow({ where: { name } })\<close>), the records to connect, the layer row, and
  the feature rows one after the other. An error anywhere rolls the transaction back.
  The sequences hand out unused ids; a rolled back run leaves them as they were.
\<close>

definition valid_id :: "js \<Rightarrow> bool" where
  "valid_id v = (case v of Num x \<Rightarrow> real_of_int \<lfloor>x\<rfloor> = x | _ \<Rightarrow> False)"

definition find_id :: "nat list \<Rightarrow> js \<Rightarrow> nat option" where
  "find_id ids v = (case v of Num x \<Rightarrow> find (\<lambda>n. real n = x) ids | _ \<Rightarrow> None)"

definition connected :: "nat list \<Rightarrow> js option \<Rightarrow> bool" where
  "connected ids c = (case c of None \<Rightarrow> True | Some v \<Rightarrow> find_id ids v \<noteq> None)"

definition createMany_data :: "js \<Rightarrow> js list option" where
  "createMany_data d = (case d of Arr xs \<Rightarrow> Some xs | Obj kvs \<Rightarrow> Some [d] | _ \<Rightarrow> None)"

definition valid_input :: "env \<Rightarrow> LayerCreateInput \<Rightarrow> bool" where
  "valid_input e inp \<longleftrightarrow>
     (case li_dispatcher inp of None \<Rightarrow> True | Some v \<Rightarrow> valid_id v) \<and>
     (case li_admins inp of None \<Rightarrow> True | Some v \<Rightarrow> valid_id v) \<and>
     (case li_defaultSurvey inp of None \<Rightarrow> True | Some v \<Rightarrow> valid_id v) \<and>
     (case li_features inp of
        None \<Rightarrow> True
      | Some d \<Rightarrow>
          (case createMany_data d of
             None \<Rightarrow> False
           | Some xs \<Rightarrow> list_all (feature_input_valid e) xs))"

definition refs_exist :: "db \<Rightarrow> LayerCreateInput \<Rightarrow> bool" where
  "refs_exist d inp \<longleftrightarrow>
     connected (users d) (li_dispatcher inp) \<and>
     connected (users d) (li_admins inp) \<and>
     connected (surveys d) (li_defaultSurvey inp)"

definition new_feature :: "nat \<Rightarrow> nat \<Rightarrow> js \<Rightarrow> feature_row" where
  "new_feature fid lid x =
     \<lparr>f_id = fid, f_layerId = lid, f_geojson = own x (utf16 ''geojson''),
      f_label = own x (utf16 ''label''), f_assignment = None\<rparr>"

fun insert_features :: "env \<Rightarrow> nat \<Rightarrow> js list \<Rightarrow> db \<Rightarrow> error + db" where
  "insert_features e lid [] d = Inr d"
| "insert_features e lid (x # xs) d =
     (if db_accepts e x
      then insert_features e lid xs
             (d\<lparr>features := features d @ [new_feature (feature_seq d) lid x],
                feature_seq := Suc (feature_seq d)\<rparr>)
      else Inl (PrismaClientKnownRequestError P2000))"

definition new_layer :: "db \<Rightarrow> LayerCreateInput \<Rightarrow> layer_row" where
  "new_layer d inp =
     \<lparr>l_id = layer_seq d, l_name = li_name inp, l_labelField = li_labelField inp,
      l_dispatcherId = Option.bind (li_dispatcher inp) (find_id (users d)),
      l_admins = (case Option.bind (li_admins inp) (find_id (users d)) of
                    None \<Rightarrow> []
                  | Some u \<Rightarrow> [u]),
      l_defaultSurveyId = Option.bind (li_defaultSurvey inp) (find_id (surveys d))\<rparr>"

definition layer_create_tx :: "env \<Rightarrow> LayerCreateInput \<Rightarrow> db \<Rightarrow> error + layer_row \<times> db" where
  "layer_create_tx e inp d =
     (if li_name inp \<in> set (map l_name (layers d))
      then Inl (PrismaClientKnownRequestError P2002)
      else if \<not> refs_exist d inp
      then Inl (PrismaClientKnownRequestError P2025)
      else
        (let row = new_layer d inp;
             d1 = d\<lparr>layers := layers d @ [row], layer_seq := Suc (layer_seq d)\<rparr>;
             xs = (case li_features inp of
                     None \<Rightarrow> []
                   | Some data \<Rightarrow> (case createMany_data data of None \<Rightarrow> [] | Some xs \<Rightarrow> xs))
         in case insert_features e (l_id row) xs d1 of
              Inl err \<Rightarrow> Inl err
            | Inr d2 \<Rightarrow> Inr (row, d2)))"

definition prisma_layer_create ::
  "env \<Rightarrow> LayerCreateInput \<Rightarrow> db \<Rightarrow> (error + layer_row) \<times> db" where
  "prisma_layer_create e inp d =
     (if \<not> valid_input e inp then (Inl PrismaClientValidationError, d)
      else
        (case layer_create_tx e inp d of
           Inl err \<Rightarrow> (Inl err, d)
         | Inr (row, d') \<Rightarrow> (Inr row, d')))"

section \<open>The layer-create actions\<close>

text \<open>\<open>surveyId ? { connect: { id: parseInt(surveyId) } } : undefined\<close>\<close>

definition defaultSurvey :: "env \<Rightarrow> jsstring option \<Rightarrow> js option" where
  "defaultSurvey e surveyId =
     (case surveyId of
        None \<Rightarrow> None
      | Some s \<Rightarrow> if s = [] then None else Some (parseInt e s))"

text \<open>
  \<open>redirect(url, { headers: { "Set-Cookie": await commitSession(session) } })\<close>.
  The cookie is made first. \<open>redirect\<close> then builds the headers of the response, the
  cookie and after it \<open>Location\<close> with the url as it is given, and a header value is
  checked: a code unit other than a tab, \<open>0x20\<close> to \<open>0x7E\<close> and \<open>0x80\<close> to \<open>0xFF\<close> makes
  it throw a \<open>TypeError\<close> (invalid character in header content).
\<close>

definition header_value :: "jsstring \<Rightarrow> bool" where
  "header_value s =
     list_all (\<lambda>u. u = 0x09 \<or> (0x20 \<le> u \<and> u \<le> 0x7E) \<or> (0x80 \<le> u \<and> u \<le> 0xFF)) s"

definition redirect :: "jsstring \<Rightarrow> jsstring \<Rightarrow> error + response" where
  "redirect url cookie =
     (if \<not> header_value cookie then Inl TypeError
      else if \<not> header_value url then Inl TypeError
      else Inr \<lparr>location = url, set_cookie = cookie\<rparr>)"

definition respond :: "env \<Rightarrow> jsstring \<Rightarrow> session \<Rightarrow> error + response" where
  "respond e url session =
     (case commitSession e session of
        None \<Rightarrow> Inl Error
      | Some cookie \<Rightarrow> redirect url cookie)"

text \<open>
  The action that connects a dispatcher and stores the label field on the layer. The text
  is parsed before \<open>features == ""\<close> is looked at. Nothing catches an exception: a throw
  of \<open>JSON.parse\<close>, of the ORM or of the redirect ends the run and is the result of the
  action. The redirect comes after the create: what the create has written stays
  written when the redirect throws.
  \<^verbatim>\<open>
  let layer: Prisma.LayerCreateInput;
  if (features == "") {
    layer = { name: String(name), labelField: String(field),
              dispatcher: { connect: { id: userId } }, defaultSurvey: ... };
  } else {
    layer = { name: String(name), labelField: String(field),
              dispatcher: { connect: { id: userId } },
              features: { createMany: { data: parsedFeatures } }, defaultSurvey: ... };
  }
  await prisma.layer.create({ data: layer });
  session.set("task", name);
  return redirect(`/admin/layers/${name}`, {
    headers: { "Set-Cookie": await commitSession(session) },
  });
  \<close>
\<close>

definition dispatcher_layer :: "env \<Rightarrow> request \<Rightarrow> js \<Rightarrow> LayerCreateInput" where
  "dispatcher_layer e req parsedFeatures =
     (let userId = session_get (req_session req) (utf16 ''userId'');
          features = fd_features (req_form req);
          name = fd_name (req_form req);
          field = fd_field (req_form req);
          surveyId = fd_surveyId (req_form req)
      in if features = Some []
         then \<lparr>li_name = String_of name, li_labelField = Some (String_of field),
               li_dispatcher = Some userId, li_admins = None, li_features = None,
               li_defaultSurvey = defaultSurvey e surveyId\<rparr>
         else \<lparr>li_name = String_of name, li_labelField = Some (String_of field),
               li_dispatcher = Some userId, li_admins = None,
               li_features = Some parsedFeatures,
               li_defaultSurvey = defaultSurvey e surveyId\<rparr>)"

definition action_dispatcher :: "env \<Rightarrow> request \<Rightarrow> db \<Rightarrow> (error + response) \<times> db" where
  "action_dispatcher e req d =
     (let session = req_session req;
          features = fd_features (req_form req);
          name = fd_name (req_form req)
      in case JSON_parse (json_text e) reviver (String_of features) of
           Inl err \<Rightarrow> (Inl err, d)
         | Inr parsedFeatures \<Rightarrow>
             (case prisma_layer_create e (dispatcher_layer e req parsedFeatures) d of
                (Inl err, d') \<Rightarrow> (Inl err, d')
              | (Inr row, d') \<Rightarrow>
                  (respond e (utf16 ''/admin/layers/'' @ String_of name)
                     (session_set session (utf16 ''task'') (form_value name)),
                   d')))"

text \<open>
  The action that connects an admin and gives every feature its label:
  \<^verbatim>\<open>
  parsedFeatures.map((f) => ({
    ...f,
    label: f.geojson.properties[String(field)],
  }))
  \<close>
  Only an array has \<open>map\<close>; on any other parsed value the call throws a \<open>TypeError\<close>.
\<close>

definition with_label :: "env \<Rightarrow> jsstring \<Rightarrow> js \<Rightarrow> error + js" where
  "with_label e field f =
     (case member e f (utf16 ''geojson'') of
        Inl err \<Rightarrow> Inl err
      | Inr g \<Rightarrow>
          (case member e g (utf16 ''properties'') of
             Inl err \<Rightarrow> Inl err
           | Inr p \<Rightarrow>
               (case member e p field of
                  Inl err \<Rightarrow> Inl err
                | Inr l \<Rightarrow> Inr (Obj (AList.update (utf16 ''label'') l (spread f))))))"

definition labelled_features :: "env \<Rightarrow> jsstring \<Rightarrow> js \<Rightarrow> error + js" where
  "labelled_features e field parsedFeatures =
     (case parsedFeatures of
        Arr fs \<Rightarrow>
          (case map_throwing (with_label e field) fs of
             Inl err \<Rightarrow> Inl err
           | Inr gs \<Rightarrow> Inr (Arr gs))
      | _ \<Rightarrow> Inl TypeError)"

text \<open>The layer input of this action; building it throws where a label cannot be read.\<close>

definition admins_layer :: "env \<Rightarrow> request \<Rightarrow> js \<Rightarrow> error + LayerCreateInput" where
  "admins_layer e req parsedFeatures =
     (let userId = session_get (req_session req) (utf16 ''userId'');
          features = fd_features (req_form req);
          name = fd_name (req_form req);
          field = fd_field (req_form req);
          surveyId = fd_surveyId (req_form req)
      in if features = Some []
         then Inr \<lparr>li_name = String_of name, li_labelField = None,
                   li_dispatcher = None, li_admins = Some userId,
                   li_features = None,
                   li_defaultSurvey = defaultSurvey e surveyId\<rparr>
         else
           (case labelled_features e (String_of field) parsedFeatures of
              Inl err \<Rightarrow> Inl err
            | Inr data \<Rightarrow>
                Inr \<lparr>li_name = String_of name, li_labelField = None,
                     li_dispatcher = None, li_admins = Some userId,
                     li_features = Some data,
                     li_defaultSurvey = defaultSurvey e surveyId\<rparr>))"

definition action_admins :: "env \<Rightarrow> request \<Rightarrow> db \<Rightarrow> (error + response) \<times> db" where
  "action_admins e req d =
     (let session = req_session req;
          features = fd_features (req_form req)
      in case JSON_parse (json_text e) reviver (String_of features) of
           Inl err \<Rightarrow> (Inl err, d)
         | Inr parsedFeatures \<Rightarrow>
             (case admins_layer e req parsedFeatures of
                Inl err \<Rightarrow> (Inl err, d)
              | Inr layer \<Rightarrow>
                  (case prisma_layer_create e layer d of
                     (Inl err, d') \<Rightarrow> (Inl err, d')
                   | (Inr row, d') \<Rightarrow>
                       (respond e (utf16 ''/admin/layers'') session, d'))))"

section \<open>The map view: loader and feature collections\<close>



text \<open>A feature of a collection handed to the map: \<open>{ id, geometry, properties }\<close>.\<close>

record map_feature =
  mf_id :: nat
  mf_geometry :: js
  mf_properties :: "(jsstring \<times> js) list"

text \<open>\<open>xs.filter(p)\<close> where \<open>p\<close> can throw.\<close>

fun filter_throwing :: "('a \<Rightarrow> error + bool) \<Rightarrow> 'a list \<Rightarrow> error + 'a list" where
  "filter_throwing p [] = Inr []"
| "filter_throwing p (x # xs) =
     (case p x of
        Inl err \<Rightarrow> Inl err
      | Inr b \<Rightarrow>
          (case filter_throwing p xs of
             Inl err \<Rightarrow> Inl err
           | Inr ys \<Rightarrow> Inr (if b then x # ys else ys)))"

text \<open>\<open>f.assignment.completed\<close>: a \<open>TypeError\<close> on a feature without assignment.\<close>

definition assignment_completed :: "feature_row \<Rightarrow> error + bool" where
  "assignment_completed f =
     (case f_assignment f of None \<Rightarrow> Inl TypeError | Some a \<Rightarrow> Inr (a_completed a))"

definition number_or_null :: "nat option \<Rightarrow> js" where
  "number_or_null x = (case x of None \<Rightarrow> Null | Some n \<Rightarrow> Num (real n))"

text \<open>
  \<^verbatim>\<open>
  .map((f) => ({
    id: f.id,
    geometry: f.geojson.geometry,
    properties: {
      ...f.geojson.properties,
      surveyId: f.assignment.surveyId,
      assignmentId: f.assignment.id,
      completed: true,       // false in todoAssignments
    },
  }))
  \<close>
\<close>

definition collection_feature :: "env \<Rightarrow> bool \<Rightarrow> feature_row \<Rightarrow> error + map_feature" where
  "collection_feature e flag f =
     (case member e (f_geojson f) (utf16 ''geometry'') of
        Inl err \<Rightarrow> Inl err
      | Inr geometry \<Rightarrow>
          (case member e (f_geojson f) (utf16 ''properties'') of
             Inl err \<Rightarrow> Inl err
           | Inr properties \<Rightarrow>
               (case f_assignment f of
                  None \<Rightarrow> Inl TypeError
                | Some a \<Rightarrow>
                    Inr \<lparr>mf_id = f_id f, mf_geometry = geometry,
                         mf_properties =
                           AList.update (utf16 ''completed'') (Bool flag)
                             (AList.update (utf16 ''assignmentId'') (Num (real (a_id a)))
                                (AList.update (utf16 ''surveyId'')
                                   (number_or_null (a_surveyId a))
                                   (spread properties)))\<rparr>)))"

definition completedAssignments :: "env \<Rightarrow> feature_row list \<Rightarrow> error + map_feature list" where
  "completedAssignments e assignments =
     (case filter_throwing assignment_completed assignments of
        Inl err \<Rightarrow> Inl err
      | Inr fs \<Rightarrow> map_throwing (collection_feature e True) fs)"

definition todoAssignments :: "env \<Rightarrow> feature_row list \<Rightarrow> error + map_feature list" where
  "todoAssignments e assignments =
     (case filter_throwing
             (\<lambda>f. case assignment_completed f of
                     Inl err \<Rightarrow> Inl err
                   | Inr b \<Rightarrow> Inr (\<not> b)) assignments of
        Inl err \<Rightarrow> Inl err
      | Inr fs \<Rightarrow> map_throwing (collection_feature e False) fs)"

section \<open>The map interaction state\<close>

record lnglat =
  lng :: real
  lat :: real

record view_state =
  longitude :: real
  latitude :: real
  zoom :: real

text \<open>A click on the map: where, and the features of the layers \<open>todo\<close> and \<open>done\<close> under it.\<close>

record click_event =
  lngLat :: lnglat
  hit_features :: "map_feature list"

text \<open>The request that \<open>createPoint\<close> posts to \<open>/layer/feature-create\<close>. The fields travel
  as texts: \<open>String(layer.id)\<close>, \<open>JSON.stringify\<close> of the coordinates, \<open>String(userId)\<close>.\<close>

record create_request =
  cp_layerId :: nat
  cp_coordinates :: lnglat
  cp_userId :: nat

datatype event =
    Click click_event
  | Move view_state
  | Zoom
  | PopupClose
  | AddPointClose
  | CreatePoint
  | ToggleAddPoint
  | Geolocate lnglat
  | SetBasemap string

text \<open>What JavaScript takes for true in \<open>!completed && assignment && ...\<close>.\<close>

definition truthy :: "js \<Rightarrow> bool" where
  "truthy v =
     (case v of
        Undef \<Rightarrow> False
      | NaN \<Rightarrow> False
      | Null \<Rightarrow> False
      | Bool b \<Rightarrow> b
      | Num x \<Rightarrow> x \<noteq> 0
      | Str s \<Rightarrow> s \<noteq> []
      | _ \<Rightarrow> True)"

text \<open>A property of a clicked feature: \<open>e.features[0].properties.assignmentId\<close>.\<close>

definition property :: "map_feature \<Rightarrow> jsstring \<Rightarrow> js" where
  "property f k = (case map_of (mf_properties f) k of None \<Rightarrow> Undef | Some v \<Rightarrow> v)"

subsection \<open>The task map with the Add Point popup\<close>

text \<open>
  The state of the component, and \<open>p_camera\<close>: the camera of the map, which this variant
  leaves to the map (\<open>initialViewState\<close>) and does not keep in its own state.
\<close>

record popup_state =
  p_showPopup :: bool
  p_addPoint :: bool
  p_basemap :: string
  p_dCoords :: lnglat
  p_cCoords :: lnglat
  p_completed :: js
  p_assignment :: js
  p_camera :: view_state

definition popup_initial :: popup_state where
  "popup_initial =
     \<lparr>p_showPopup = False, p_addPoint = False, p_basemap = ''streets-v11'',
      p_dCoords = \<lparr>lng = 0, lat = 0\<rparr>, p_cCoords = \<lparr>lng = 0, lat = 0\<rparr>,
      p_completed = Undef, p_assignment = Undef,
      p_camera = \<lparr>longitude = -122.44, latitude = 37.75, zoom = 12\<rparr>\<rparr>"

definition onFeatureClick_p :: "popup_state \<Rightarrow> click_event \<Rightarrow> popup_state" where
  "onFeatureClick_p st ev =
     (case hit_features ev of
        f # fs \<Rightarrow>
          st\<lparr>p_dCoords := lngLat ev, p_showPopup := True,
             p_assignment := property f (utf16 ''assignmentId''),
             p_completed := property f (utf16 ''completed'')\<rparr>
      | [] \<Rightarrow> st\<lparr>p_dCoords := lngLat ev, p_addPoint := True\<rparr>)"

definition onMove_p :: "popup_state \<Rightarrow> view_state \<Rightarrow> popup_state" where
  "onMove_p st vs = st\<lparr>p_showPopup := False, p_addPoint := False, p_camera := vs\<rparr>"

definition createPoint_p :: "layer_row \<Rightarrow> nat \<Rightarrow> popup_state \<Rightarrow> popup_state \<times> create_request" where
  "createPoint_p layer userId st =
     (st\<lparr>p_addPoint := False\<rparr>,
      \<lparr>cp_layerId = l_id layer, cp_coordinates = p_dCoords st, cp_userId = userId\<rparr>)"

fun step_p :: "layer_row \<Rightarrow> nat \<Rightarrow> popup_state \<Rightarrow> event \<Rightarrow> popup_state" where
  "step_p layer userId st (Click ev) = onFeatureClick_p st ev"
| "step_p layer userId st (Move vs) = onMove_p st vs"
| "step_p layer userId st PopupClose = st\<lparr>p_showPopup := False\<rparr>"
| "step_p layer userId st AddPointClose = st\<lparr>p_addPoint := False\<rparr>"
| "step_p layer userId st CreatePoint =
     (if p_addPoint st then fst (createPoint_p layer userId st) else st)"
| "step_p layer userId st (Geolocate c) = st\<lparr>p_cCoords := c\<rparr>"
| "step_p layer userId st (SetBasemap b) = st\<lparr>p_basemap := b\<rparr>"
| "step_p layer userId st Zoom = st"
| "step_p layer userId st ToggleAddPoint = st"

text \<open>What is rendered: \<open>{addPoint && <Popup longitude={dCoords.lng} ...>}\<close> and
  \<open>{showPopup && ... {!completed && assignment && <Link to={assignment}>}}\<close>.\<close>

definition add_point_popup_p :: "popup_state \<Rightarrow> lnglat option" where
  "add_point_popup_p st = (if p_addPoint st then Some (p_dCoords st) else None)"

definition complete_survey_p :: "popup_state \<Rightarrow> js option" where
  "complete_survey_p st =
     (if p_showPopup st \<and> \<not> truthy (p_completed st) \<and> truthy (p_assignment st)
      then Some (p_assignment st) else None)"

subsection \<open>The task map with the crosshair\<close>

record crosshair_state =
  x_showPopup :: bool
  x_addPoint :: bool
  x_basemap :: string
  x_dCoords :: lnglat
  x_cCoords :: lnglat
  x_preventZoom :: bool
  x_viewState :: view_state
  x_completed :: js
  x_assignment :: js

text \<open>\<open>savedState\<close> is the view state of the session, when the session has one.\<close>

definition crosshair_initial :: "view_state option \<Rightarrow> crosshair_state" where
  "crosshair_initial savedState =
     \<lparr>x_showPopup = False, x_addPoint = False, x_basemap = ''satellite'',
      x_dCoords = \<lparr>lng = 0, lat = 0\<rparr>, x_cCoords = \<lparr>lng = 0, lat = 0\<rparr>,
      x_preventZoom = True,
      x_viewState = (case savedState of
                       Some vs \<Rightarrow> vs
                     | None \<Rightarrow> \<lparr>longitude = -122.44, latitude = 37.75, zoom = 12\<rparr>),
      x_completed = Undef, x_assignment = Undef\<rparr>"

definition onFeatureClick_x :: "crosshair_state \<Rightarrow> click_event \<Rightarrow> crosshair_state" where
  "onFeatureClick_x st ev =
     (case hit_features ev of
        f # fs \<Rightarrow>
          st\<lparr>x_dCoords := lngLat ev, x_addPoint := False, x_showPopup := True,
             x_assignment := property f (utf16 ''assignmentId''),
             x_completed := property f (utf16 ''completed'')\<rparr>
      | [] \<Rightarrow>
          (if x_addPoint st then st\<lparr>x_dCoords := lngLat ev, x_addPoint := False\<rparr>
           else st\<lparr>x_dCoords := lngLat ev\<rparr>))"

definition onMove_x :: "crosshair_state \<Rightarrow> view_state \<Rightarrow> crosshair_state" where
  "onMove_x st vs = st\<lparr>x_showPopup := False, x_viewState := vs\<rparr>"

definition onZoom_x :: "crosshair_state \<Rightarrow> crosshair_state" where
  "onZoom_x st = (if x_preventZoom st then st\<lparr>x_preventZoom := False\<rparr> else st)"

definition createPoint_x ::
  "layer_row \<Rightarrow> nat \<Rightarrow> crosshair_state \<Rightarrow> crosshair_state \<times> create_request" where
  "createPoint_x layer userId st =
     (st,
      \<lparr>cp_layerId = l_id layer,
       cp_coordinates =
         \<lparr>lng = longitude (x_viewState st), lat = latitude (x_viewState st)\<rparr>,
       cp_userId = userId\<rparr>)"

fun step_x :: "layer_row \<Rightarrow> nat \<Rightarrow> crosshair_state \<Rightarrow> event \<Rightarrow> crosshair_state" where
  "step_x layer userId st (Click ev) = onFeatureClick_x st ev"
| "step_x layer userId st (Move vs) = onMove_x st vs"
| "step_x layer userId st Zoom = onZoom_x st"
| "step_x layer userId st PopupClose = st\<lparr>x_showPopup := False\<rparr>"
| "step_x layer userId st CreatePoint =
     (if x_addPoint st then fst (createPoint_x layer userId st) else st)"
| "step_x layer userId st ToggleAddPoint = st\<lparr>x_addPoint := \<not> x_addPoint st\<rparr>"
| "step_x layer userId st (Geolocate c) = st\<lparr>x_cCoords := c\<rparr>"
| "step_x layer userId st (SetBasemap b) = st\<lparr>x_basemap := b\<rparr>"
| "step_x layer userId st AddPointClose = st"

definition complete_survey_x :: "crosshair_state \<Rightarrow> js option" where
  "complete_survey_x st =
     (if x_showPopup st \<and> \<not> truthy (x_completed st) \<and> truthy (x_assignment st)
      then Some (x_assignment st) else None)"

text \<open>The clicks a map can send: the features under a click are features it was given.\<close>

fun event_of :: "map_feature list \<Rightarrow> event \<Rightarrow> bool" where
  "event_of shown (Click ev) = list_all (\<lambda>f. f \<in> set shown) (hit_features ev)"
| "event_of shown ev = True"

text \<open>The camera after a run of events: the view state of the last move.\<close>

definition last_move :: "view_state \<Rightarrow> event list \<Rightarrow> view_state" where
  "last_move vs evs = foldl (\<lambda>c ev. case ev of Move v \<Rightarrow> v | _ \<Rightarrow> c) vs evs"

section \<open>Writes to assignments\<close>

text \<open>
  Modelled from the spec: the action behind \<open>/layer/feature-create\<close>, which receives the
  request of \<open>createPoint\<close>, is not among the source files. Section 4.4: a field-added
  point creates one Feature (geometry = point at submitted coordinates) and one
  Assignment (assignee = submitting surveyor, completed = false) atomically.
\<close>

definition feature_create :: "db \<Rightarrow> create_request \<Rightarrow> db" where
  "feature_create d rq =
     d\<lparr>features := features d @
          [\<lparr>f_id = feature_seq d, f_layerId = cp_layerId rq,
            f_geojson =
              Obj [(utf16 ''type'', Str (utf16 ''Feature'')),
                   (utf16 ''geometry'',
                    Obj [(utf16 ''type'', Str (utf16 ''Point'')),
                         (utf16 ''coordinates'',
                          Arr [Num (lng (cp_coordinates rq)), Num (lat (cp_coordinates rq))])]),
                   (utf16 ''properties'', Obj [])],
            f_label = Undef,
            f_assignment =
              Some \<lparr>a_id = assignment_seq d, a_assigneeId = cp_userId rq,
                    a_surveyId = None, a_completed = False\<rparr>\<rparr>],
       feature_seq := Suc (feature_seq d),
       assignment_seq := Suc (assignment_seq d)\<rparr>"

text \<open>
  Modelled from the spec: the action that records a survey response is not among the
  source files. Section 4.4: completion sets completed = true for the assignment; no
  transition back is defined.
\<close>

definition complete_survey :: "db \<Rightarrow> nat \<Rightarrow> db" where
  "complete_survey d aid =
     d\<lparr>features :=
          map (\<lambda>f. case f_assignment f of
                      None \<Rightarrow> f
                    | Some a \<Rightarrow>
                        if a_id a = aid
                        then f\<lparr>f_assignment := Some (a\<lparr>a_completed := True\<rparr>)\<rparr>
                        else f)
              (features d)\<rparr>"

text \<open>Every write of the system: the two layer-create actions and the two above.\<close>

datatype operation =
    LayerCreateDispatcher request
  | LayerCreateAdmins request
  | FeatureCreate create_request
  | CompleteSurvey nat

fun apply_op :: "env \<Rightarrow> db \<Rightarrow> operation \<Rightarrow> db" where
  "apply_op e d (LayerCreateDispatcher req) = snd (action_dispatcher e req d)"
| "apply_op e d (LayerCreateAdmins req) = snd (action_admins e req d)"
| "apply_op e d (FeatureCreate rq) = feature_create d rq"
| "apply_op e d (CompleteSurvey aid) = complete_survey d aid"

fun states :: "env \<Rightarrow> db \<Rightarrow> operation list \<Rightarrow> db list" where
  "states e d [] = [d]"
| "states e d (x # xs) = d # states e (apply_op e d x) xs"

text \<open>
  The completed flag of the assignment of the \<open>k\<close>-th feature row (rows are only ever
  appended, so the position names the row), \<open>None\<close> while there is no such assignment.
\<close>

definition completed_flag :: "db \<Rightarrow> nat \<Rightarrow> bool option" where
  "completed_flag d k =
     (if k < length (features d)
      then map_option a_completed (f_assignment (features d ! k))
      else None)"

section \<open>Outcomes of a layer-create run\<close>

text \<open>One new layer row, and exactly \<open>N\<close> new feature rows, which are the rows linked to it.\<close>

definition created :: "db \<Rightarrow> db \<Rightarrow> nat \<Rightarrow> bool" where
  "created d d' N \<longleftrightarrow>
     (\<exists>l rows.
        layers d' = layers d @ [l] \<and>
        features d' = features d @ rows \<and>
        length rows = N \<and>
        filter (\<lambda>f. f_layerId f = l_id l) (features d') = rows)"

definition nothing_created :: "db \<Rightarrow> db \<Rightarrow> bool" where
  "nothing_created d d' \<longleftrightarrow> layers d' = layers d \<and> features d' = features d"

text \<open>The sequence of layer ids is ahead of every layer id in use.\<close>

definition fresh_layer_seq :: "db \<Rightarrow> bool" where
  "fresh_layer_seq d \<longleftrightarrow> list_all (\<lambda>f. f_layerId f < layer_seq d) (features d)"

section \<open>Sample inputs\<close>

text \<open>
  A features text of one feature, as the upload form writes it, and what \<open>JSON.parse\<close>
  reads from it:
  \<^verbatim>\<open>[{"geojson":{"properties":{"name":"A"}}}]\<close>
\<close>

definition quoted :: "string \<Rightarrow> string" where
  "quoted cs = CHR 0x22 # cs @ [CHR 0x22]"

definition sample_text :: jsstring where
  "sample_text =
     utf16 (''[{'' @ quoted ''geojson'' @ '':{'' @ quoted ''properties'' @ '':{'' @
            quoted ''name'' @ '':'' @ quoted ''A'' @ ''}}}]'')"

definition sample_tree :: js where
  "sample_tree =
     Arr [Obj [(utf16 ''geojson'',
                Obj [(utf16 ''properties'', Obj [(utf16 ''name'', Str (utf16 ''A''))])])]]"

text \<open>
  A text of two strings, the first of 254 times the letter \<open>a\<close>, and its reading.
\<close>

definition filler_text :: jsstring where
  "filler_text =
     utf16 (''['' @ quoted (replicate 254 CHR ''a'') @ '','' @ quoted ''ab'' @ '']'')"

definition filler_tree :: js where
  "filler_tree = Arr [Str (replicate 254 97), Str (utf16 ''ab'')]"

text \<open>
  An environment that reads these two texts as \<open>JSON.parse\<close> does and takes every other
  text, the empty one among them, for a syntax error; no other text is read below. No
  prototype holds a property, and the schema and the database accept every feature.
\<close>

definition sample_env :: env where
  "sample_env =
     \<lparr>json_text = (\<lambda>t. if t = sample_text then Some sample_tree
                         else if t = filler_text then Some filler_tree else None),
      proto_get = (\<lambda>v k. Undef),
      parseInt = (\<lambda>s. NaN),
      commitSession = (\<lambda>s. Some []),
      feature_input_valid = (\<lambda>v. True),
      db_accepts = (\<lambda>v. True)\<rparr>"

definition sample_request :: "jsstring \<Rightarrow> request" where
  "sample_request text =
     \<lparr>req_session = [(utf16 ''userId'', Num 1)],
      req_form = \<lparr>fd_features = Some text, fd_name = Some (utf16 ''Parcels''),
                  fd_field = Some (utf16 ''name''), fd_surveyId = None\<rparr>\<rparr>"

text \<open>The same request with an en dash (\<open>U+2013\<close>) in the layer name: \<open>A-B\<close>.\<close>

definition dash_request :: request where
  "dash_request =
     \<lparr>req_session = [(utf16 ''userId'', Num 1)],
      req_form = \<lparr>fd_features = Some sample_text, fd_name = Some [0x41, 0x2013, 0x42],
                  fd_field = Some (utf16 ''name''), fd_surveyId = None\<rparr>\<rparr>"

definition sample_db :: db where
  "sample_db =
     \<lparr>layers = [], features = [], users = [1], surveys = [],
      layer_seq = 1, feature_seq = 1, assignment_seq = 1\<rparr>"

definition sample_layer :: layer_row where
  "sample_layer =
     \<lparr>l_id = 1, l_name = utf16 ''Parcels'', l_labelField = None, l_dispatcherId = None,
      l_admins = [1], l_defaultSurveyId = None\<rparr>"

text \<open>A database with the layer and two assigned features of surveyor 7, one completed.\<close>

definition sample_feature :: "nat \<Rightarrow> bool \<Rightarrow> feature_row" where
  "sample_feature n flag =
     \<lparr>f_id = n, f_layerId = 1,
      f_geojson = Obj [(utf16 ''geometry'', Null), (utf16 ''properties'', Obj [])],
      f_label = Undef,
      f_assignment =
        Some \<lparr>a_id = n, a_assigneeId = 7, a_surveyId = None, a_completed = flag\<rparr>\<rparr>"

definition sample_db2 :: db where
  "sample_db2 =
     \<lparr>layers = [sample_layer],
      features = [sample_feature 1 True, sample_feature 2 False],
      users = [1], surveys = [],
      layer_seq = 2, feature_seq = 3, assignment_seq = 3\<rparr>"

text \<open>What the map is given for such a feature.\<close>

definition sample_shown :: "nat \<Rightarrow> bool \<Rightarrow> map_feature" where
  "sample_shown n flag =
     \<lparr>mf_id = n, mf_geometry = Null,
      mf_properties =
        [(utf16 ''surveyId'', Null), (utf16 ''assignmentId'', Num (real n)),
         (utf16 ''completed'', Bool flag)]\<rparr>"

section \<open>Properties of the corruption scrub\<close>

lemma concat_Array_from: "concat (Array_from s) = s"
  by (induction s rule: Array_from.induct) auto

lemma Array_from_characters: "c \<in> set (Array_from s) \<Longrightarrow> js_character c"
  by (induction s rule: Array_from.induct) (auto simp: js_character_def split: if_splits)

lemma not_high_and_low: "\<not> (is_high u \<and> is_low u)"
  by (auto simp: is_high_def is_low_def word_le_nat_alt)

lemma Array_from_replicate_unit: "Array_from (replicate n u) = replicate n [u]"
proof (induction n)
  case 0
  show ?case by simp
next
  case (Suc n)
  show ?case
  proof (cases n)
    case 0
    then show ?thesis by simp
  next
    case (Suc m)
    with Suc.IH show ?thesis
      using not_high_and_low [of u] by simp
  qed
qed

lemma Array_from_replicate_pair:
  "is_high h \<Longrightarrow> is_low l \<Longrightarrow> Array_from (concat (replicate n [h, l])) = replicate n [h, l]"
  by (induction n) simp_all

lemma Array_from_copies:
  assumes "js_character c"
  shows "Array_from (concat (replicate n c)) = replicate n c"
proof -
  from assms consider u where "c = [u]" | h l where "c = [h, l]" "is_high h" "is_low l"
    by (auto simp: js_character_def)
  then show ?thesis
  proof cases
    case 1
    have "concat (replicate n [u]) = replicate n u"
      by (induction n) simp_all
    with 1 show ?thesis
      by (simp add: Array_from_replicate_unit)
  next
    case 2
    then show ?thesis
      by (simp add: Array_from_replicate_pair)
  qed
qed

lemma remdups_replicate_Suc: "remdups (replicate (Suc n) c) = [c]"
  by (induction n) simp_all

lemma remdups_one:
  "length (remdups xs) = Suc 0 \<longleftrightarrow> (\<exists>c n. 0 < n \<and> xs = replicate n c)"
proof
  assume h: "length (remdups xs) = Suc 0"
  then obtain c where c: "remdups xs = [c]"
    by (cases "remdups xs") auto
  then have "set xs = {c}"
    by (metis list.set(1) list.simps(15) set_remdups)
  then have "xs = replicate (length xs) c" "xs \<noteq> []"
    by (auto simp: replicate_length_same)
  then show "\<exists>c n. 0 < n \<and> xs = replicate n c"
    by (metis length_greater_0_conv)
next
  assume "\<exists>c n. 0 < n \<and> xs = replicate n c"
  then obtain c n where "0 < n" "xs = replicate n c" by blast
  then show "length (remdups xs) = Suc 0"
    by (cases n) (simp_all add: remdups_replicate_Suc del: replicate_Suc)
qed

lemma scrub_test:
  "length s = 254 \<and> length (remdups (Array_from s)) = 1 \<longleftrightarrow>
   length s = 254 \<and> copies_of_one_character s"
proof (cases "length s = 254")
  case False
  then show ?thesis by simp
next
  case len: True
  have "length (remdups (Array_from s)) = Suc 0 \<longleftrightarrow> copies_of_one_character s"
  proof
    assume "length (remdups (Array_from s)) = Suc 0"
    then obtain c n where n: "0 < n" and eq: "Array_from s = replicate n c"
      unfolding remdups_one by blast
    then have "c \<in> set (Array_from s)"
      by simp
    then have "js_character c"
      by (rule Array_from_characters)
    moreover have "s = concat (replicate n c)"
      using concat_Array_from [of s] eq by simp
    ultimately show "copies_of_one_character s"
      by (auto simp: copies_of_one_character_def)
  next
    assume "copies_of_one_character s"
    then obtain c n where c: "js_character c" and s: "s = concat (replicate n c)"
      by (auto simp: copies_of_one_character_def)
    from len s have "0 < n"
      by (cases n) auto
    moreover have "Array_from s = replicate n c"
      using c s by (simp add: Array_from_copies)
    ultimately show "length (remdups (Array_from s)) = Suc 0"
      unfolding remdups_one by blast
  qed
  with len show ?thesis by simp
qed

lemma reviver_Str: "reviver key (Str s) = Str (scrub s)"
  using scrub_test [of s] by (auto simp: reviver_def scrub_def)

lemma reviver_other: "(\<And>s. v \<noteq> Str s) \<Longrightarrow> reviver key v = v"
  by (cases v) (auto simp: reviver_def)

lemma map_zip_index:
  assumes "\<And>i x. x \<in> set xs \<Longrightarrow> f i x = g x"
  shows "map (\<lambda>(i, x). f i x) (zip [0..<length xs] xs) = map g xs"
  using assms by (intro nth_equalityI) auto

lemma map_strings_not_Undef: "is_json v \<Longrightarrow> map_strings f v \<noteq> Undef"
  by (cases v) auto

lemma internalize_reviver:
  "is_json v \<Longrightarrow> internalize reviver name v = map_strings scrub v"
proof (induction v arbitrary: name)
  case (Arr xs)
  have "map (\<lambda>(i, x). internalize reviver (digits i) x) (zip [0..<length xs] xs)
        = map (map_strings scrub) xs"
    using Arr by (intro map_zip_index) (auto simp: list_all_iff)
  then show ?case
    by (simp add: reviver_other)
next
  case (Obj kvs)
  have m: "map (\<lambda>(k, v). (k, internalize reviver k v)) kvs
        = map (\<lambda>(k, v). (k, map_strings scrub v)) kvs"
    using Obj by (auto simp: list_all_iff)
  have f: "filter (\<lambda>(k, v). v \<noteq> Undef) (map (\<lambda>(k, v). (k, map_strings scrub v)) kvs)
        = map (\<lambda>(k, v). (k, map_strings scrub v)) kvs"
    using Obj.prems by (auto simp: list_all_iff filter_id_conv map_strings_not_Undef)
  show ?case
    by (simp only: internalize.simps m f map_strings.simps) (simp add: reviver_other)
qed (simp_all add: reviver_Str reviver_other)


lemma utf16_simps [simp]:
  "utf16 [] = []"
  "utf16 (c # cs) = word_of_nat (of_char c) # utf16 cs"
  "utf16 (xs @ ys) = utf16 xs @ utf16 ys"
  by (simp_all add: utf16_def)

lemma sample_texts_differ: "filler_text \<noteq> sample_text"
  by (simp add: filler_text_def sample_text_def quoted_def)

lemma copies_replicate: "copies_of_one_character (replicate n u)"
proof -
  have "replicate n u = concat (replicate n [u])"
    by (induction n) simp_all
  moreover have "js_character [u]"
    by (simp add: js_character_def)
  ultimately show ?thesis
    unfolding copies_of_one_character_def by blast
qed

text \<open>
  C1. For every string value met while the features text is parsed, the reviver puts the
  empty string in its place exactly when its length is 254 and it is made of copies of one
  character; a string of length 254 with two or more distinct characters, and a string of
  any other length, comes back unchanged. The length is the one JavaScript counts (UTF-16
  code units) and a character is an element of \<open>Array.from\<close> (a code point). Keys of
  objects are not values and are never changed.
\<close>

theorem scrub_every_string_value:
  assumes "read text = Some v" and "is_json v"
  shows "JSON_parse read reviver text =
           Inr (map_strings
                  (\<lambda>s. if length s = 254 \<and> copies_of_one_character s then [] else s) v)"
proof -
  have "scrub = (\<lambda>s. if length s = 254 \<and> copies_of_one_character s then [] else s)"
    by (rule ext) (simp add: scrub_def)
  with assms show ?thesis
    by (simp add: JSON_parse_def internalize_reviver)
qed

theorem scrub_every_string_value_witness:
  "json_text sample_env filler_text = Some filler_tree \<and> is_json filler_tree \<and>
   JSON_parse (json_text sample_env) reviver filler_text = Inr (Arr [Str [], Str (utf16 ''ab'')])"
proof -
  have r: "json_text sample_env filler_text = Some filler_tree"
    by (simp add: sample_env_def sample_texts_differ)
  have j: "is_json filler_tree"
    by (simp add: filler_tree_def)
  show ?thesis
    using r j scrub_every_string_value [of "json_text sample_env" filler_text filler_tree]
    by (simp add: filler_tree_def copies_replicate)
qed

section \<open>Properties of the ORM's nested create\<close>

lemma insert_features_Inr:
  "insert_features e lid xs d = Inr d' \<Longrightarrow>
     layers d' = layers d \<and>
     (\<exists>rows. features d' = features d @ rows \<and> length rows = length xs \<and>
        list_all (\<lambda>f. f_layerId f = lid) rows \<and>
        map f_label rows = map (\<lambda>x. own x (utf16 ''label'')) xs \<and>
        map f_geojson rows = map (\<lambda>x. own x (utf16 ''geojson'')) xs)"
proof (induction xs arbitrary: d)
  case Nil
  then show ?case by simp
next
  case (Cons x xs)
  let ?d1 = "d\<lparr>features := features d @ [new_feature (feature_seq d) lid x],
               feature_seq := Suc (feature_seq d)\<rparr>"
  from Cons.prems have acc: "db_accepts e x" and rest: "insert_features e lid xs ?d1 = Inr d'"
    by (auto split: if_splits)
  from Cons.IH [OF rest] obtain rows where
    l: "layers d' = layers d" and
    r: "features d' = (features d @ [new_feature (feature_seq d) lid x]) @ rows"
       "length rows = length xs" "list_all (\<lambda>f. f_layerId f = lid) rows"
       "map f_label rows = map (\<lambda>x. own x (utf16 ''label'')) xs"
       "map f_geojson rows = map (\<lambda>x. own x (utf16 ''geojson'')) xs"
    by auto
  let ?rows = "new_feature (feature_seq d) lid x # rows"
  have "features d' = features d @ ?rows" "length ?rows = length (x # xs)"
    "list_all (\<lambda>f. f_layerId f = lid) ?rows"
    "map f_label ?rows = map (\<lambda>x. own x (utf16 ''label'')) (x # xs)"
    "map f_geojson ?rows = map (\<lambda>x. own x (utf16 ''geojson'')) (x # xs)"
    using r by (simp_all add: new_feature_def)
  with l show ?case by blast
qed

lemma insert_features_Inl:
  "insert_features e lid xs d = Inl err \<Longrightarrow> err = PrismaClientKnownRequestError P2000"
  by (induction xs arbitrary: d) (auto split: if_splits)

lemma insert_features_accepts:
  "list_all (db_accepts e) xs \<Longrightarrow> \<exists>d'. insert_features e lid xs d = Inr d'"
  by (induction xs arbitrary: d) auto

text \<open>The feature inputs of a layer input.\<close>

lemma prisma_layer_create_Inl:
  "prisma_layer_create e inp d = (Inl err, d') \<Longrightarrow> d' = d"
  by (auto simp: prisma_layer_create_def split: if_splits sum.splits prod.splits)

lemma prisma_layer_create_P2002:
  "prisma_layer_create e inp d = (Inl (PrismaClientKnownRequestError P2002), d') \<Longrightarrow>
     li_name inp \<in> set (map l_name (layers d))"
  by (auto simp: prisma_layer_create_def layer_create_tx_def Let_def
      split: if_splits sum.splits prod.splits dest: insert_features_Inl)


lemma prisma_layer_create_Inr:
  assumes "prisma_layer_create e inp d = (Inr row, d')"
    and "li_features inp = Some (Arr xs)"
  shows "l_id row = layer_seq d \<and> layers d' = layers d @ [row] \<and>
     (\<exists>rows. features d' = features d @ rows \<and> length rows = length xs \<and>
        list_all (\<lambda>f. f_layerId f = layer_seq d) rows \<and>
        map f_label rows = map (\<lambda>x. own x (utf16 ''label'')) xs \<and>
        map f_geojson rows = map (\<lambda>x. own x (utf16 ''geojson'')) xs)"
proof -
  let ?row = "new_layer d inp"
  let ?d1 = "d\<lparr>layers := layers d @ [?row], layer_seq := Suc (layer_seq d)\<rparr>"
  from assms have ins: "insert_features e (l_id ?row) xs ?d1 = Inr d'" and row: "row = ?row"
    by (auto simp: prisma_layer_create_def layer_create_tx_def Let_def createMany_data_def
        split: if_splits sum.splits prod.splits)
  have id: "l_id ?row = layer_seq d"
    by (simp add: new_layer_def)
  from insert_features_Inr [OF ins] row id show ?thesis
    by simp
qed

lemma prisma_layer_create_None:
  assumes "prisma_layer_create e inp d = (Inr row, d')"
    and "li_features inp = None"
  shows "layers d' = layers d @ [row] \<and> features d' = features d"
  using assms
  by (auto simp: prisma_layer_create_def layer_create_tx_def Let_def
      split: if_splits sum.splits prod.splits)

lemma created_by_create:
  assumes "prisma_layer_create e inp d = (Inr row, d')"
    and "li_features inp = Some (Arr xs)"
    and "fresh_layer_seq d"
  shows "created d d' (length xs)"
proof -
  from prisma_layer_create_Inr [OF assms(1,2)] obtain rows where
    l: "l_id row = layer_seq d" "layers d' = layers d @ [row]" and
    r: "features d' = features d @ rows" "length rows = length xs"
       "list_all (\<lambda>f. f_layerId f = layer_seq d) rows"
    by auto
  from assms(3) have "filter (\<lambda>f. f_layerId f = layer_seq d) (features d) = []"
    by (auto simp: fresh_layer_seq_def list_all_iff filter_empty_conv)
  moreover from r(3) have "filter (\<lambda>f. f_layerId f = layer_seq d) rows = rows"
    by (simp add: list_all_iff filter_id_conv)
  ultimately have "filter (\<lambda>f. f_layerId f = l_id row) (features d') = rows"
    using l r by simp
  with l r show ?thesis
    unfolding created_def by blast
qed

lemma create_outcome:
  assumes "li_features inp = Some (Arr xs)" and "fresh_layer_seq d"
  shows "case prisma_layer_create e inp d of
           (Inl err, d') \<Rightarrow> nothing_created d d'
         | (Inr row, d') \<Rightarrow> created d d' (length xs)"
proof (cases "prisma_layer_create e inp d")
  case (Pair res d')
  show ?thesis
  proof (cases res)
    case (Inl err)
    with Pair have "d' = d"
      by (auto dest: prisma_layer_create_Inl)
    with Pair Inl show ?thesis
      by (simp add: nothing_created_def)
  next
    case (Inr row)
    with Pair assms show ?thesis
      by (simp add: created_by_create)
  qed
qed

section \<open>Properties of the layer-create actions\<close>

lemma parse_features:
  assumes "json_text e text = Some v" and "is_json v"
  shows "JSON_parse (json_text e) reviver text = Inr (map_strings scrub v)"
  using assms by (simp add: JSON_parse_def internalize_reviver)

lemma JSON_parse_Inl: "JSON_parse read r text = Inl err \<Longrightarrow> err = SyntaxError \<and> read text = None"
  by (auto simp: JSON_parse_def split: option.splits)

lemma map_throwing_Inr:
  "map_throwing f xs = Inr ys \<Longrightarrow>
     length ys = length xs \<and> (\<forall>i<length xs. f (xs ! i) = Inr (ys ! i))"
proof (induction xs arbitrary: ys)
  case Nil
  then show ?case by simp
next
  case (Cons x xs)
  from Cons.prems obtain y zs where y: "f x = Inr y" and zs: "map_throwing f xs = Inr zs"
    and ys: "ys = y # zs"
    by (auto split: sum.splits)
  from Cons.IH [OF zs] y ys show ?case
    by (auto simp: nth_Cons split: nat.splits)
qed





lemma labelled_features_Inr:
  "labelled_features e field (Arr fs) = Inr data \<Longrightarrow>
     \<exists>gs. data = Arr gs \<and> length gs = length fs \<and>
       (\<forall>i<length fs. with_label e field (fs ! i) = Inr (gs ! i))"
  by (auto simp: labelled_features_def split: sum.splits dest: map_throwing_Inr)

subsection \<open>The redirect\<close>

lemma respond_Inl: "respond e url s = Inl err \<Longrightarrow> err = TypeError \<or> err = Error"
  by (auto simp: respond_def redirect_def split: option.splits if_splits)

lemma above_Latin1: "u \<in> set s \<Longrightarrow> 0xFF < u \<Longrightarrow> \<not> header_value s"
proof
  assume u: "u \<in> set s" "0xFF < u" and "header_value s"
  then have "u = 0x09 \<or> (0x20 \<le> u \<and> u \<le> 0x7E) \<or> (0x80 \<le> u \<and> u \<le> 0xFF)"
    by (auto simp: header_value_def list_all_iff)
  with u(2) show False
    by (auto simp: word_less_nat_alt word_le_nat_alt)
qed

lemma respond_invalid:
  assumes "\<not> header_value url"
  shows "respond e url s = Inl TypeError \<or> respond e url s = Inl Error"
  using assms by (auto simp: respond_def redirect_def split: option.splits)

subsection \<open>The layer inputs\<close>

lemma dispatcher_layer_fields:
  "li_name (dispatcher_layer e req p) = String_of (fd_name (req_form req))"
  "li_labelField (dispatcher_layer e req p) = Some (String_of (fd_field (req_form req)))"
  "fd_features (req_form req) \<noteq> Some [] \<Longrightarrow> li_features (dispatcher_layer e req p) = Some p"
  by (simp_all add: dispatcher_layer_def Let_def)



lemma admins_layer_features:
  "fd_features (req_form req) \<noteq> Some [] \<Longrightarrow> admins_layer e req p = Inr inp \<Longrightarrow>
     \<exists>data. labelled_features e (String_of (fd_field (req_form req))) p = Inr data \<and>
       li_features inp = Some data"
  by (auto simp: admins_layer_def Let_def split: if_splits sum.splits)

lemma action_dispatcher_parsed:
  assumes "JSON_parse (json_text e) reviver (String_of (fd_features (req_form req))) = Inr p"
  shows "action_dispatcher e req d =
     (case prisma_layer_create e (dispatcher_layer e req p) d of
        (Inl err, d') \<Rightarrow> (Inl err, d')
      | (Inr row, d') \<Rightarrow>
          (respond e (utf16 ''/admin/layers/'' @ String_of (fd_name (req_form req)))
             (session_set (req_session req) (utf16 ''task'')
                (form_value (fd_name (req_form req)))),
           d'))"
  using assms by (simp add: action_dispatcher_def Let_def)

lemma action_admins_parsed:
  assumes "JSON_parse (json_text e) reviver (String_of (fd_features (req_form req))) = Inr p"
    and "admins_layer e req p = Inr inp"
  shows "action_admins e req d =
     (case prisma_layer_create e inp d of
        (Inl err, d') \<Rightarrow> (Inl err, d')
      | (Inr row, d') \<Rightarrow> (respond e (utf16 ''/admin/layers'') (req_session req), d'))"
  using assms by (simp add: action_admins_def Let_def)

lemma action_admins_throws:
  assumes "JSON_parse (json_text e) reviver (String_of (fd_features (req_form req))) = Inr p"
    and "admins_layer e req p = Inl err"
  shows "action_admins e req d = (Inl err, d)"
  using assms by (simp add: action_admins_def Let_def)

lemma action_unparsed:
  assumes "json_text e (String_of (fd_features (req_form req))) = None"
  shows "action_dispatcher e req d = (Inl SyntaxError, d)"
    and "action_admins e req d = (Inl SyntaxError, d)"
  using assms by (simp_all add: action_dispatcher_def action_admins_def JSON_parse_def Let_def)

text \<open>A run that got as far as the create: what it leaves is what the create leaves, and
  it ends with the error of the create, with an error of the redirect, or well.\<close>

lemma through_respond:
  assumes "r = (case c of (Inl err, d') \<Rightarrow> (Inl err, d') | (Inr row, d') \<Rightarrow> (respond e url s, d'))"
  shows "snd r = snd c"
    and "fst c = Inl err \<Longrightarrow> fst r = Inl err"
    and "fst c = Inr row \<Longrightarrow> fst r = respond e url s"
  unfolding assms by (auto split: prod.splits sum.splits)

lemma outcome_through:
  assumes c: "case c of (Inl err, d') \<Rightarrow> nothing_created d d' | (Inr row, d') \<Rightarrow> created d d' n"
    and r: "r = (case c of (Inl err, d') \<Rightarrow> (Inl err, d')
                 | (Inr row, d') \<Rightarrow> (respond e url s, d'))"
  shows "case r of
           (Inl err, d') \<Rightarrow>
             nothing_created d d' \<or> ((err = TypeError \<or> err = Error) \<and> created d d' n)
         | (Inr (resp :: response), d') \<Rightarrow> created d d' n"
proof (cases c)
  case (Pair res d')
  show ?thesis
  proof (cases res)
    case (Inl err)
    with Pair c r show ?thesis by simp
  next
    case (Inr row)
    with Pair c have cr: "created d d' n" by simp
    show ?thesis
    proof (cases "respond e url s")
      case (Inl err)
      with respond_Inl [OF Inl] Pair Inr r cr show ?thesis by auto
    next
      case resp: (Inr resp)
      with Pair Inr r cr show ?thesis by simp
    qed
  qed
qed

lemma created_not_nothing: "created d d' n \<Longrightarrow> \<not> nothing_created d d'"
  by (auto simp: created_def nothing_created_def)


text \<open>
  C2. For a non-empty features text that parses to N feature records, a run of a
  layer-create action is to leave exactly one new layer row and exactly N new feature
  rows linked to it, or, on any failure, no new row of either kind. The create itself is
  all or nothing, and a run that ends well has written exactly these rows. But the
  response is built after the create has committed. The action that connects a
  dispatcher puts the layer name into the \<open>Location\<close> header as it is: where the name has
  a code unit above \<open>0xFF\<close> and the create goes through, the run fails (with the
  \<open>TypeError\<close> of the header, or before that with the error of \<open>commitSession\<close>) and the
  new layer and its N features are there all the same. The layer sequence is ahead of
  the layer ids in use.
\<close>

theorem layer_create_not_atomic:
  assumes "fd_features (req_form req) = Some text" and "text \<noteq> []"
    and "json_text e text = Some (Arr fs)" and "is_json (Arr fs)"
    and "fresh_layer_seq d"
  shows "(case action_dispatcher e req d of
            (Inl err, d') \<Rightarrow>
              nothing_created d d' \<or>
              ((err = TypeError \<or> err = Error) \<and> created d d' (length fs))
          | (Inr resp, d') \<Rightarrow> created d d' (length fs)) \<and>
         (case action_admins e req d of
            (Inl err, d') \<Rightarrow>
              nothing_created d d' \<or>
              ((err = TypeError \<or> err = Error) \<and> created d d' (length fs))
          | (Inr resp, d') \<Rightarrow> created d d' (length fs)) \<and>
         ((\<exists>u\<in>set (String_of (fd_name (req_form req))). 0xFF < u) \<longrightarrow>
            (\<forall>row d'.
               prisma_layer_create e
                 (dispatcher_layer e req (Arr (map (map_strings scrub) fs))) d = (Inr row, d') \<longrightarrow>
               created d d' (length fs) \<and> \<not> nothing_created d d' \<and>
               (action_dispatcher e req d = (Inl TypeError, d') \<or>
                action_dispatcher e req d = (Inl Error, d'))))"
proof (intro conjI impI allI)
  let ?parsed = "Arr (map (map_strings scrub) fs)"
  let ?url = "utf16 ''/admin/layers/'' @ String_of (fd_name (req_form req))"
  let ?s = "session_set (req_session req) (utf16 ''task'') (form_value (fd_name (req_form req)))"
  have ne: "fd_features (req_form req) \<noteq> Some []"
    using assms(1,2) by simp
  have p: "JSON_parse (json_text e) reviver (String_of (fd_features (req_form req))) = Inr ?parsed"
    using parse_features [OF assms(3,4)] assms(1) by (simp add: String_of_def)
  note act = action_dispatcher_parsed [OF p, of d]
  have inp: "li_features (dispatcher_layer e req ?parsed) = Some ?parsed"
    using ne by (rule dispatcher_layer_fields)
  have c: "case prisma_layer_create e (dispatcher_layer e req ?parsed) d of
          (Inl err, d') \<Rightarrow> nothing_created d d'
        | (Inr row, d') \<Rightarrow> created d d' (length fs)"
    using create_outcome [OF inp assms(5), of e, unfolded length_map] .
  from outcome_through [OF c act]
  show "case action_dispatcher e req d of
          (Inl err, d') \<Rightarrow>
            nothing_created d d' \<or> ((err = TypeError \<or> err = Error) \<and> created d d' (length fs))
        | (Inr resp, d') \<Rightarrow> created d d' (length fs)" .
  show "case action_admins e req d of
          (Inl err, d') \<Rightarrow>
            nothing_created d d' \<or> ((err = TypeError \<or> err = Error) \<and> created d d' (length fs))
        | (Inr resp, d') \<Rightarrow> created d d' (length fs)"
  proof (cases "admins_layer e req ?parsed")
    case (Inl err)
    from action_admins_throws [OF p Inl, of d] show ?thesis
      by (simp add: nothing_created_def)
  next
    case (Inr layer)
    from admins_layer_features [OF ne Inr] obtain data where
      data: "labelled_features e (String_of (fd_field (req_form req))) ?parsed = Inr data"
        "li_features layer = Some data"
      by blast
    from labelled_features_Inr [OF data(1)] obtain gs where
      gs: "data = Arr gs" "length gs = length (map (map_strings scrub) fs)"
      by auto
    from data(2) gs(1) have inp': "li_features layer = Some (Arr gs)"
      by simp
    have len: "length gs = length fs"
      using gs(2) by simp
    have c': "case prisma_layer_create e layer d of
            (Inl err, d') \<Rightarrow> nothing_created d d'
          | (Inr row, d') \<Rightarrow> created d d' (length fs)"
      using create_outcome [OF inp' assms(5), of e, unfolded len] .
    from outcome_through [OF c' action_admins_parsed [OF p Inr, of d]] show ?thesis .
  qed
  fix row d'
  assume high: "\<exists>u\<in>set (String_of (fd_name (req_form req))). 0xFF < u"
    and cr: "prisma_layer_create e (dispatcher_layer e req ?parsed) d = (Inr row, d')"
  from c cr show "created d d' (length fs)"
    by simp
  then show "\<not> nothing_created d d'"
    by (rule created_not_nothing)
  from high obtain u where u: "u \<in> set (String_of (fd_name (req_form req)))" "0xFF < u"
    by blast
  from u(1) have "u \<in> set ?url"
    by (simp only: set_append Un_iff simp_thms)
  from above_Latin1 [OF this u(2)] have "\<not> header_value ?url" .
  from respond_invalid [OF this, of e ?s] act cr
  show "action_dispatcher e req d = (Inl TypeError, d') \<or>
        action_dispatcher e req d = (Inl Error, d')"
    by auto
qed

lemma sample_text_nonempty: "sample_text \<noteq> []"
  by (simp add: sample_text_def quoted_def)

lemma sample_env_fields:
  "json_text sample_env sample_text = Some sample_tree"
  "json_text sample_env [] = None"
  "proto_get sample_env v k = Undef"
  "commitSession sample_env s = Some []"
  "feature_input_valid sample_env v"
  "db_accepts sample_env v"
  using sample_text_nonempty
  by (auto simp: sample_env_def filler_text_def quoted_def)

lemma sample_parse: "JSON_parse (json_text sample_env) reviver sample_text = Inr sample_tree"
proof -
  have "is_json sample_tree"
    by (simp add: sample_tree_def)
  then have "internalize reviver [] sample_tree = map_strings scrub sample_tree"
    by (rule internalize_reviver)
  also have "\<dots> = sample_tree"
    by (simp add: sample_tree_def scrub_def)
  finally show ?thesis
    by (simp add: JSON_parse_def sample_env_fields)
qed

lemmas sample_eval =
  action_dispatcher_def action_admins_def dispatcher_layer_def admins_layer_def
  respond_def redirect_def header_value_def
  Let_def sample_request_def dash_request_def sample_db_def
  session_get_def session_set_def String_of_def form_value_def
  prisma_layer_create_def valid_input_def valid_id_def createMany_data_def
  layer_create_tx_def refs_exist_def connected_def find_id_def new_layer_def new_feature_def
  own_def defaultSurvey_def labelled_features_def with_label_def member_def spread_def
  sample_env_fields sample_parse sample_text_nonempty sample_tree_def

lemma sample_dispatcher_run:
  "fst (action_dispatcher sample_env (sample_request sample_text) sample_db) =
     Inr \<lparr>location = utf16 ''/admin/layers/Parcels'', set_cookie = []\<rparr> \<and>
   layers (snd (action_dispatcher sample_env (sample_request sample_text) sample_db)) =
     [\<lparr>l_id = 1, l_name = utf16 ''Parcels'', l_labelField = Some (utf16 ''name''),
       l_dispatcherId = Some 1, l_admins = [], l_defaultSurveyId = None\<rparr>] \<and>
   features (snd (action_dispatcher sample_env (sample_request sample_text) sample_db)) =
     [\<lparr>f_id = 1, f_layerId = 1,
       f_geojson = Obj [(utf16 ''properties'', Obj [(utf16 ''name'', Str (utf16 ''A''))])],
       f_label = Undef, f_assignment = None\<rparr>]"
  by (simp add: sample_eval)

lemma sample_admins_run:
  "fst (action_admins sample_env (sample_request sample_text) sample_db) =
     Inr \<lparr>location = utf16 ''/admin/layers'', set_cookie = []\<rparr> \<and>
   layers (snd (action_admins sample_env (sample_request sample_text) sample_db)) =
     [\<lparr>l_id = 1, l_name = utf16 ''Parcels'', l_labelField = None,
       l_dispatcherId = None, l_admins = [1], l_defaultSurveyId = None\<rparr>] \<and>
   features (snd (action_admins sample_env (sample_request sample_text) sample_db)) =
     [\<lparr>f_id = 1, f_layerId = 1,
       f_geojson = Obj [(utf16 ''properties'', Obj [(utf16 ''name'', Str (utf16 ''A''))])],
       f_label = Str (utf16 ''A''), f_assignment = None\<rparr>]"
  by (simp add: sample_eval)

lemma dash_run:
  "fst (action_dispatcher sample_env dash_request sample_db) = Inl TypeError \<and>
   layers (snd (action_dispatcher sample_env dash_request sample_db)) =
     [\<lparr>l_id = 1, l_name = [0x41, 0x2013, 0x42], l_labelField = Some (utf16 ''name''),
       l_dispatcherId = Some 1, l_admins = [], l_defaultSurveyId = None\<rparr>] \<and>
   features (snd (action_dispatcher sample_env dash_request sample_db)) =
     [\<lparr>f_id = 1, f_layerId = 1,
       f_geojson = Obj [(utf16 ''properties'', Obj [(utf16 ''name'', Str (utf16 ''A''))])],
       f_label = Undef, f_assignment = None\<rparr>]"
  by (simp add: sample_eval)

theorem layer_create_not_atomic_witness:
  "fd_features (req_form dash_request) = Some sample_text \<and>
   sample_text \<noteq> [] \<and>
   json_text sample_env sample_text = Some sample_tree \<and>
   is_json sample_tree \<and>
   fresh_layer_seq sample_db \<and>
   (\<exists>u\<in>set (String_of (fd_name (req_form dash_request))). 0xFF < u) \<and>
   fst (action_dispatcher sample_env dash_request sample_db) = Inl TypeError \<and>
   created sample_db (snd (action_dispatcher sample_env dash_request sample_db)) 1 \<and>
   \<not> nothing_created sample_db (snd (action_dispatcher sample_env dash_request sample_db)) \<and>
   length (layers (snd (action_dispatcher sample_env dash_request sample_db))) = 1 \<and>
   length (features (snd (action_dispatcher sample_env dash_request sample_db))) = 1"
proof -
  let ?fs = "[Obj [(utf16 ''geojson'',
                    Obj [(utf16 ''properties'', Obj [(utf16 ''name'', Str (utf16 ''A''))])])]]"
  let ?run = "action_dispatcher sample_env dash_request sample_db"
  have h1: "fd_features (req_form dash_request) = Some sample_text"
    by (simp add: dash_request_def)
  have h3: "json_text sample_env sample_text = Some (Arr ?fs)"
    using sample_env_fields(1) by (simp add: sample_tree_def)
  have h4: "is_json (Arr ?fs)"
    by simp
  have h5: "fresh_layer_seq sample_db"
    by (simp add: fresh_layer_seq_def sample_db_def)
  have h6: "\<exists>u\<in>set (String_of (fd_name (req_form dash_request))). 0xFF < u"
    by (simp add: dash_request_def String_of_def)
  note t = layer_create_not_atomic [OF h1 sample_text_nonempty h3 h4 h5]
  have run: "?run = (Inl TypeError, snd ?run)"
    using dash_run by (cases ?run) simp
  from conjunct1 [OF t] have
    "nothing_created sample_db (snd ?run) \<or> created sample_db (snd ?run) 1"
    by (subst (asm) run) auto
  moreover have "\<not> nothing_created sample_db (snd ?run)"
    using dash_run by (simp add: nothing_created_def sample_db_def)
  ultimately have "created sample_db (snd ?run) 1"
    by blast
  then show ?thesis
    using h1 h3 h4 h5 h6 sample_text_nonempty dash_run created_not_nothing
    by (simp add: sample_tree_def)
qed


subsection \<open>Labels\<close>

lemma own_member: "own x k = v \<Longrightarrow> v \<noteq> Undef \<Longrightarrow> member e x k = Inr v"
  by (auto simp: own_def member_def split: js.splits option.splits)

lemma own_Undef [simp]: "own Undef k = Undef"
  by (simp add: own_def)

lemma own_label_update: "own (Obj (AList.update k v al)) k = v"
  by (simp add: own_def update_conv')

lemma with_label_own:
  assumes "own (own (own f (utf16 ''geojson'')) (utf16 ''properties'')) field = v"
    and "v \<noteq> Undef"
  shows "\<exists>g. with_label e field f = Inr g \<and> own g (utf16 ''label'') = v"
proof -
  let ?g = "own f (utf16 ''geojson'')"
  let ?p = "own ?g (utf16 ''properties'')"
  from assms have p: "?p \<noteq> Undef"
    by auto
  then have g: "?g \<noteq> Undef"
    by auto
  have "member e f (utf16 ''geojson'') = Inr ?g"
    using g by (intro own_member) simp_all
  moreover have "member e ?g (utf16 ''properties'') = Inr ?p"
    using p by (intro own_member) simp_all
  moreover have "member e ?p field = Inr v"
    using assms by (intro own_member) simp_all
  ultimately have "with_label e field f = Inr (Obj (AList.update (utf16 ''label'') v (spread f)))"
    by (simp add: with_label_def)
  then show ?thesis
    by (simp add: own_label_update)
qed

lemma prisma_layer_create_row:
  "prisma_layer_create e inp d = (Inr row, d') \<Longrightarrow> row = new_layer d inp"
  by (auto simp: prisma_layer_create_def layer_create_tx_def Let_def
      split: if_splits sum.splits prod.splits)

lemma created_rows:
  assumes "prisma_layer_create e inp d = (Inr row, d')"
    and "li_features inp = Some (Arr gs)" and "i < length gs"
  shows "length (features d') = length (features d) + length gs"
    and "f_layerId (features d' ! (length (features d) + i)) = l_id (last (layers d'))"
    and "f_label (features d' ! (length (features d) + i)) = own (gs ! i) (utf16 ''label'')"
    and "f_geojson (features d' ! (length (features d) + i)) = own (gs ! i) (utf16 ''geojson'')"
    and "l_labelField (last (layers d')) = li_labelField inp"
proof -
  from prisma_layer_create_Inr [OF assms(1,2)] obtain rows where
    l: "l_id row = layer_seq d" "layers d' = layers d @ [row]" and
    r: "features d' = features d @ rows" "length rows = length gs"
       "list_all (\<lambda>f. f_layerId f = layer_seq d) rows"
       "map f_label rows = map (\<lambda>x. own x (utf16 ''label'')) gs"
       "map f_geojson rows = map (\<lambda>x. own x (utf16 ''geojson'')) gs"
    by auto
  have i: "i < length rows"
    using assms(3) r(2) by simp
  have nth: "features d' ! (length (features d) + i) = rows ! i"
    using r(1) by (simp add: nth_append)
  show "length (features d') = length (features d) + length gs"
    using r(1,2) by simp
  show "f_layerId (features d' ! (length (features d) + i)) = l_id (last (layers d'))"
    using r(3) i l nth by (simp add: list_all_length)
  have "f_label (rows ! i) = map f_label rows ! i"
    using i by simp
  also have "\<dots> = own (gs ! i) (utf16 ''label'')"
    using i r(2) by (simp add: r(4))
  finally show "f_label (features d' ! (length (features d) + i)) = own (gs ! i) (utf16 ''label'')"
    using nth by simp
  have "f_geojson (rows ! i) = map f_geojson rows ! i"
    using i by simp
  also have "\<dots> = own (gs ! i) (utf16 ''geojson'')"
    using i r(2) by (simp add: r(5))
  finally show "f_geojson (features d' ! (length (features d) + i)) = own (gs ! i) (utf16 ''geojson'')"
    using nth by simp
  show "l_labelField (last (layers d')) = li_labelField inp"
    using l(2) prisma_layer_create_row [OF assms(1)] by (simp add: new_layer_def)
qed

text \<open>
  C3, as amended. In the action that connects an admin, every feature of a non-empty
  import whose properties hold the submitted label field is stored with that property,
  as the scrubbed parse gives it, for its label. The action that connects a dispatcher
  stores the label field on the layer and hands the parsed features to the ORM as they
  are: it derives no label, and the label and the geojson of a stored feature are what
  the parsed feature itself holds under these keys, whatever the label field is.
\<close>

theorem label_of_created_features:
  assumes "fd_features (req_form req) = Some text" and "text \<noteq> []"
    and "json_text e text = Some raw" and "is_json raw"
    and "map_strings scrub raw = Arr fs"
    and "i < length fs"
  shows "(\<forall>res d'. action_admins e req d = (res, d') \<longrightarrow>
            (d' = d \<and> (\<exists>err. res = Inl err)) \<or>
            (length (features d') = length (features d) + length fs \<and>
             f_layerId (features d' ! (length (features d) + i)) = l_id (last (layers d')) \<and>
             (\<forall>v. own (own (own (fs ! i) (utf16 ''geojson'')) (utf16 ''properties''))
                     (String_of (fd_field (req_form req))) = v \<and> v \<noteq> Undef \<longrightarrow>
                  f_label (features d' ! (length (features d) + i)) = v))) \<and>
         (\<forall>res d'. action_dispatcher e req d = (res, d') \<longrightarrow>
            (d' = d \<and> (\<exists>err. res = Inl err)) \<or>
            (length (features d') = length (features d) + length fs \<and>
             f_layerId (features d' ! (length (features d) + i)) = l_id (last (layers d')) \<and>
             l_labelField (last (layers d')) = Some (String_of (fd_field (req_form req))) \<and>
             f_label (features d' ! (length (features d) + i)) = own (fs ! i) (utf16 ''label'') \<and>
             f_geojson (features d' ! (length (features d) + i)) =
               own (fs ! i) (utf16 ''geojson'')))"
proof (intro conjI allI impI)
  let ?field = "String_of (fd_field (req_form req))"
  have ne: "fd_features (req_form req) \<noteq> Some []"
    using assms(1,2) by simp
  have p: "JSON_parse (json_text e) reviver (String_of (fd_features (req_form req))) = Inr (Arr fs)"
    using parse_features [OF assms(3,4)] assms(1,5) by (simp add: String_of_def)
  {
    fix res d'
    assume run: "action_admins e req d = (res, d')"
    show "(d' = d \<and> (\<exists>err. res = Inl err)) \<or>
          (length (features d') = length (features d) + length fs \<and>
           f_layerId (features d' ! (length (features d) + i)) = l_id (last (layers d')) \<and>
           (\<forall>v. own (own (own (fs ! i) (utf16 ''geojson'')) (utf16 ''properties'')) ?field = v \<and>
                  v \<noteq> Undef \<longrightarrow>
                f_label (features d' ! (length (features d) + i)) = v))"
    proof (cases "admins_layer e req (Arr fs)")
      case (Inl err)
      from action_admins_throws [OF p Inl, of d] run show ?thesis
        by simp
    next
      case (Inr inp)
      from admins_layer_features [OF ne Inr] obtain data where
        data: "labelled_features e ?field (Arr fs) = Inr data" "li_features inp = Some data"
        by blast
      from labelled_features_Inr [OF data(1)] obtain gs where
        gs: "data = Arr gs" "length gs = length fs" and
        lab: "\<forall>i<length fs. with_label e ?field (fs ! i) = Inr (gs ! i)"
        by auto
      from data(2) gs(1) have inp: "li_features inp = Some (Arr gs)"
        by simp
      note act = action_admins_parsed [OF p Inr, of d]
      show ?thesis
      proof (cases "prisma_layer_create e inp d")
        case (Pair cres cd)
        show ?thesis
        proof (cases cres)
          case (Inl err)
          with Pair act run prisma_layer_create_Inl [of e inp d err cd] show ?thesis
            by simp
        next
          case (Inr row)
          with Pair act run have cr: "prisma_layer_create e inp d = (Inr row, d')"
            by simp
          have i': "i < length gs"
            using assms(6) gs(2) by simp
          note rows = created_rows [OF cr inp i']
          have "f_label (features d' ! (length (features d) + i)) = v"
            if "own (own (own (fs ! i) (utf16 ''geojson'')) (utf16 ''properties'')) ?field = v"
              "v \<noteq> Undef" for v
          proof -
            from with_label_own [OF that, of e] lab assms(6)
            have "own (gs ! i) (utf16 ''label'') = v"
              by auto
            with rows(3) show ?thesis
              by simp
          qed
          with rows(1,2) gs(2) show ?thesis
            by simp
        qed
      qed
    qed
  }
  {
    fix res d'
    assume run: "action_dispatcher e req d = (res, d')"
    let ?inp = "dispatcher_layer e req (Arr fs)"
    have inp: "li_features ?inp = Some (Arr fs)"
      using ne by (rule dispatcher_layer_fields)
    note act = action_dispatcher_parsed [OF p, of d]
    show "(d' = d \<and> (\<exists>err. res = Inl err)) \<or>
          (length (features d') = length (features d) + length fs \<and>
           f_layerId (features d' ! (length (features d) + i)) = l_id (last (layers d')) \<and>
           l_labelField (last (layers d')) = Some ?field \<and>
           f_label (features d' ! (length (features d) + i)) = own (fs ! i) (utf16 ''label'') \<and>
           f_geojson (features d' ! (length (features d) + i)) = own (fs ! i) (utf16 ''geojson''))"
    proof (cases "prisma_layer_create e ?inp d")
      case (Pair cres cd)
      show ?thesis
      proof (cases cres)
        case (Inl err)
        with Pair act run prisma_layer_create_Inl [of e ?inp d err cd] show ?thesis
          by simp
      next
        case (Inr row)
        with Pair act run have cr: "prisma_layer_create e ?inp d = (Inr row, d')"
          by simp
        from created_rows [OF cr inp assms(6)] show ?thesis
          by (simp add: dispatcher_layer_fields)
      qed
    qed
  }
qed

theorem label_of_created_features_witness:
  "fd_features (req_form (sample_request sample_text)) = Some sample_text \<and>
   sample_text \<noteq> [] \<and>
   json_text sample_env sample_text = Some sample_tree \<and> is_json sample_tree \<and>
   map_strings scrub sample_tree = sample_tree \<and>
   fst (action_admins sample_env (sample_request sample_text) sample_db) =
     Inr \<lparr>location = utf16 ''/admin/layers'', set_cookie = []\<rparr> \<and>
   f_label (features (snd (action_admins sample_env (sample_request sample_text) sample_db)) ! 0) =
     Str (utf16 ''A'') \<and>
   f_label (features (snd (action_dispatcher sample_env (sample_request sample_text) sample_db)) ! 0) =
     Undef \<and>
   l_labelField
     (last (layers (snd (action_dispatcher sample_env (sample_request sample_text) sample_db)))) =
     Some (utf16 ''name'')"
proof -
  let ?f = "Obj [(utf16 ''geojson'',
                  Obj [(utf16 ''properties'', Obj [(utf16 ''name'', Str (utf16 ''A''))])])]"
  let ?a = "action_admins sample_env (sample_request sample_text) sample_db"
  let ?d = "action_dispatcher sample_env (sample_request sample_text) sample_db"
  have h1: "fd_features (req_form (sample_request sample_text)) = Some sample_text"
    by (simp add: sample_request_def)
  have h4: "is_json sample_tree"
    by (simp add: sample_tree_def)
  have h5: "map_strings scrub sample_tree = Arr [?f]"
    by (simp add: sample_tree_def scrub_def)
  have h6: "0 < length [?f]"
    by simp
  note t = label_of_created_features
    [OF h1 sample_text_nonempty sample_env_fields(1) h4 h5 h6, of sample_db]
  have own: "own (own (own ([?f] ! 0) (utf16 ''geojson'')) (utf16 ''properties''))
      (String_of (fd_field (req_form (sample_request sample_text)))) = Str (utf16 ''A'')"
    by (simp add: own_def sample_request_def String_of_def)
  have ra: "?a = (Inr \<lparr>location = utf16 ''/admin/layers'', set_cookie = []\<rparr>, snd ?a)"
    using sample_admins_run by (cases ?a) simp
  have rd: "?d = (Inr \<lparr>location = utf16 ''/admin/layers/Parcels'', set_cookie = []\<rparr>, snd ?d)"
    using sample_dispatcher_run by (cases ?d) simp
  from conjunct1 [OF t, rule_format, OF ra] own
  have a: "f_label (features (snd ?a) ! (length (features sample_db) + 0)) = Str (utf16 ''A'')"
    by blast
  from conjunct2 [OF t, rule_format, OF rd]
  have d: "f_label (features (snd ?d) ! (length (features sample_db) + 0)) =
             own ([?f] ! 0) (utf16 ''label'') \<and>
           l_labelField (last (layers (snd ?d))) =
             Some (String_of (fd_field (req_form (sample_request sample_text))))"
    by blast
  from a d show ?thesis
    using h1 h4 h5 sample_text_nonempty sample_env_fields(1) sample_admins_run
    by (simp add: sample_db_def sample_tree_def own_def sample_request_def String_of_def)
qed

theorem dispatcher_label_counterexample:
  "fst (action_dispatcher sample_env (sample_request sample_text) sample_db) =
     Inr \<lparr>location = utf16 ''/admin/layers/Parcels'', set_cookie = []\<rparr> \<and>
   JSON_parse (json_text sample_env) reviver sample_text = Inr sample_tree \<and>
   sample_tree =
     Arr [Obj [(utf16 ''geojson'',
                Obj [(utf16 ''properties'', Obj [(utf16 ''name'', Str (utf16 ''A''))])])]] \<and>
   fd_field (req_form (sample_request sample_text)) = Some (utf16 ''name'') \<and>
   map f_label
     (features (snd (action_dispatcher sample_env (sample_request sample_text) sample_db))) =
     [Undef] \<and>
   map l_labelField
     (layers (snd (action_dispatcher sample_env (sample_request sample_text) sample_db))) =
     [Some (utf16 ''name'')] \<and>
   Undef \<noteq> Str (utf16 ''A'')"
  using sample_dispatcher_run sample_parse
  by (simp add: sample_tree_def sample_request_def)

text \<open>
  C4. With the empty string for the features field a run is meant to create a layer
  without features. The text is handed to \<open>JSON.parse\<close> before the branch on
  \<open>features == ""\<close> is reached, and the empty text is no JSON text: both actions end with
  the \<open>SyntaxError\<close> and create nothing.
\<close>

theorem empty_features_throws:
  assumes "json_text e [] = None" and "fd_features (req_form req) = Some []"
  shows "action_dispatcher e req d = (Inl SyntaxError, d) \<and>
         action_admins e req d = (Inl SyntaxError, d)"
  using assms
  by (simp add: action_dispatcher_def action_admins_def JSON_parse_def String_of_def)

theorem empty_features_throws_witness:
  "json_text sample_env [] = None \<and>
   fd_features (req_form (sample_request [])) = Some [] \<and>
   action_dispatcher sample_env (sample_request []) sample_db = (Inl SyntaxError, sample_db) \<and>
   action_admins sample_env (sample_request []) sample_db = (Inl SyntaxError, sample_db)"
proof -
  have h: "fd_features (req_form (sample_request [])) = Some []"
    by (simp add: sample_request_def)
  from empty_features_throws [OF sample_env_fields(2) h, of sample_db] h sample_env_fields(2)
  show ?thesis by simp
qed


section \<open>Failures of a layer-create run\<close>













section \<open>Properties of the map view\<close>




lemma map_throwing_total:
  "(\<And>x. x \<in> set xs \<Longrightarrow> f x = Inr (g x)) \<Longrightarrow> map_throwing f xs = Inr (map g xs)"
  by (induction xs) auto










section \<open>Properties of the map interaction state\<close>

text \<open>
  C7, as amended. In the task map with the crosshair, a camera move closes the feature
  popup and leaves the add-point flag as it is, and the zoom handler changes neither
  (a zoom is a camera move too). In the task map with the Add Point popup, a camera
  move closes the feature popup and also clears the add-point flag.
\<close>

theorem camera_move_closes_popup:
  "x_showPopup (onMove_x st vs) = False \<and>
   x_addPoint (onMove_x st vs) = x_addPoint st \<and>
   x_showPopup (onZoom_x st) = x_showPopup st \<and>
   x_addPoint (onZoom_x st) = x_addPoint st \<and>
   x_addPoint (onZoom_x (onMove_x st vs)) = x_addPoint st \<and>
   x_showPopup (onZoom_x (onMove_x st vs)) = False \<and>
   p_showPopup (onMove_p pst vs) = False \<and>
   p_addPoint (onMove_p pst vs) = False"
  by (simp add: onMove_x_def onZoom_x_def onMove_p_def)

theorem popup_move_clears_add_point_counterexample:
  "p_addPoint (onFeatureClick_p popup_initial
                 \<lparr>lngLat = \<lparr>lng = -122.5, lat = 37.7\<rparr>, hit_features = []\<rparr>) = True \<and>
   p_addPoint (onMove_p
                 (onFeatureClick_p popup_initial
                    \<lparr>lngLat = \<lparr>lng = -122.5, lat = 37.7\<rparr>, hit_features = []\<rparr>)
                 \<lparr>longitude = -122.4, latitude = 37.8, zoom = 12\<rparr>) = False"
  by (simp add: onFeatureClick_p_def onMove_p_def popup_initial_def)

text \<open>
  C10. In the task map without the crosshair control, a click that hits no feature of
  the layers \<open>todo\<close> and \<open>done\<close> sets the add-point flag and shows the Add Point popup at
  the clicked coordinates, whatever the state was before.
\<close>

theorem click_elsewhere_opens_add_point:
  "p_addPoint (onFeatureClick_p st \<lparr>lngLat = c, hit_features = []\<rparr>) = True \<and>
   add_point_popup_p (onFeatureClick_p st \<lparr>lngLat = c, hit_features = []\<rparr>) = Some c \<and>
   add_point_popup_p (step_p layer userId st (Click \<lparr>lngLat = c, hit_features = []\<rparr>)) = Some c"
  by (simp add: onFeatureClick_p_def add_point_popup_p_def)


lemma camera_last_move:
  "p_camera (foldl (step_p layer userId) st evs) = last_move (p_camera st) evs"
proof (induction evs arbitrary: st)
  case Nil
  show ?case by (simp add: last_move_def)
next
  case (Cons ev evs)
  have "p_camera (step_p layer userId st ev) =
          (case ev of Move v \<Rightarrow> v | _ \<Rightarrow> p_camera st)"
    by (cases ev)
      (simp_all add: onFeatureClick_p_def onMove_p_def createPoint_p_def split: list.splits)
  with Cons.IH [of "step_p layer userId st ev"] show ?case
    by (simp add: last_move_def)
qed



section \<open>Properties of the completed flag\<close>

lemma prisma_features_prefix:
  "\<exists>rows. features (snd (prisma_layer_create e inp d)) = features d @ rows"
proof (cases "layer_create_tx e inp d")
  case (Inl err)
  then show ?thesis
    by (simp add: prisma_layer_create_def)
next
  case (Inr p)
  obtain row d' where p: "p = (row, d')"
    by (cases p)
  from Inr p obtain xs where
    "insert_features e (l_id (new_layer d inp)) xs
       (d\<lparr>layers := layers d @ [new_layer d inp], layer_seq := Suc (layer_seq d)\<rparr>) = Inr d'"
    by (auto simp: layer_create_tx_def Let_def split: if_splits sum.splits)
  from insert_features_Inr [OF this] obtain rows where "features d' = features d @ rows"
    by auto
  with Inr p show ?thesis
    by (auto simp: prisma_layer_create_def)
qed

lemma through_prefix:
  assumes "r = (case prisma_layer_create e inp d of
                  (Inl err, d') \<Rightarrow> (Inl err, d')
                | (Inr row, d') \<Rightarrow> (respond e url s, d'))"
  shows "\<exists>rows. features (snd r) = features d @ rows"
  using prisma_features_prefix [of e inp d] through_respond(1) [OF assms] by simp

lemma action_dispatcher_prefix:
  "\<exists>rows. features (snd (action_dispatcher e req d)) = features d @ rows"
proof (cases "JSON_parse (json_text e) reviver (String_of (fd_features (req_form req)))")
  case (Inl err)
  from JSON_parse_Inl [OF Inl] have "action_dispatcher e req d = (Inl SyntaxError, d)"
    by (intro action_unparsed) simp
  then show ?thesis
    by simp
next
  case (Inr p)
  from action_dispatcher_parsed [OF Inr, of d] show ?thesis
    by (rule through_prefix)
qed

lemma action_admins_prefix:
  "\<exists>rows. features (snd (action_admins e req d)) = features d @ rows"
proof (cases "JSON_parse (json_text e) reviver (String_of (fd_features (req_form req)))")
  case (Inl err)
  from JSON_parse_Inl [OF Inl] have "action_admins e req d = (Inl SyntaxError, d)"
    by (intro action_unparsed) simp
  then show ?thesis
    by simp
next
  case p: (Inr p)
  show ?thesis
  proof (cases "admins_layer e req p")
    case (Inl err)
    from action_admins_throws [OF p Inl, of d] show ?thesis
      by simp
  next
    case (Inr inp)
    from action_admins_parsed [OF p Inr, of d] show ?thesis
      by (rule through_prefix)
  qed
qed

lemma flag_append:
  assumes "completed_flag d k = Some True" and "features d' = features d @ rows"
  shows "completed_flag d' k = Some True"
proof -
  from assms(1) have "k < length (features d)"
    by (auto simp: completed_flag_def split: if_splits)
  with assms show ?thesis
    by (simp add: completed_flag_def nth_append)
qed

lemma flag_complete:
  assumes "completed_flag d k = Some True"
  shows "completed_flag (complete_survey d aid) k = Some True"
proof -
  from assms have k: "k < length (features d)"
    by (auto simp: completed_flag_def split: if_splits)
  with assms obtain a where "f_assignment (features d ! k) = Some a" "a_completed a"
    by (auto simp: completed_flag_def)
  with k show ?thesis
    by (simp add: completed_flag_def complete_survey_def)
qed

lemma apply_op_flag:
  assumes "completed_flag d k = Some True"
  shows "completed_flag (apply_op e d x) k = Some True"
proof (cases x)
  case (LayerCreateDispatcher req)
  from action_dispatcher_prefix [of e req d] obtain rows where
    "features (snd (action_dispatcher e req d)) = features d @ rows"
    by blast
  from flag_append [OF assms this] LayerCreateDispatcher show ?thesis
    by simp
next
  case (LayerCreateAdmins req)
  from action_admins_prefix [of e req d] obtain rows where
    "features (snd (action_admins e req d)) = features d @ rows"
    by blast
  from flag_append [OF assms this] LayerCreateAdmins show ?thesis
    by simp
next
  case (FeatureCreate rq)
  have "features (feature_create d rq) = features d @ [last (features (feature_create d rq))]"
    by (simp add: feature_create_def)
  from flag_append [OF assms this] FeatureCreate show ?thesis
    by simp
next
  case (CompleteSurvey aid)
  with flag_complete [OF assms] show ?thesis
    by simp
qed

lemma states_flag:
  "completed_flag d k = Some True \<Longrightarrow> s \<in> set (states e d ops) \<Longrightarrow>
     completed_flag s k = Some True"
proof (induction ops arbitrary: d)
  case Nil
  then show ?case by simp
next
  case (Cons x xs)
  from Cons.prems(2) consider "s = d" | "s \<in> set (states e (apply_op e d x) xs)"
    by auto
  then show ?case
  proof cases
    case 1
    with Cons.prems(1) show ?thesis by simp
  next
    case 2
    from Cons.IH [OF apply_op_flag [OF Cons.prems(1)] 2] show ?thesis .
  qed
qed

lemma flags_monotone:
  "sorted_wrt (\<lambda>a b. a = Some True \<longrightarrow> b = Some True)
     (map (\<lambda>s. completed_flag s k) (states e d ops))"
proof (induction ops arbitrary: d)
  case Nil
  show ?case by simp
next
  case (Cons x xs)
  have "completed_flag d k = Some True \<longrightarrow> completed_flag s k = Some True"
    if "s \<in> set (states e (apply_op e d x) xs)" for s
    using states_flag [OF apply_op_flag that] by blast
  with Cons.IH [of "apply_op e d x"] show ?case
    by (simp add: sorted_wrt_map)
qed

subsection \<open>The Complete Survey button\<close>

lemma filter_throwing_Inr:
  "filter_throwing p xs = Inr ys \<Longrightarrow> y \<in> set ys \<Longrightarrow> y \<in> set xs \<and> p y = Inr True"
proof (induction xs arbitrary: ys)
  case Nil
  then show ?case by simp
next
  case (Cons x xs)
  from Cons.prems(1) obtain b zs where b: "p x = Inr b" and zs: "filter_throwing p xs = Inr zs"
    and ys: "ys = (if b then x # zs else zs)"
    by (auto split: sum.splits)
  show ?case
  proof (cases "y \<in> set zs")
    case True
    from Cons.IH [OF zs True] show ?thesis by simp
  next
    case False
    with ys Cons.prems(2) have "b" "y = x"
      by (auto split: if_splits)
    with b show ?thesis by simp
  qed
qed

lemma map_throwing_set:
  "map_throwing f xs = Inr ys \<Longrightarrow> y \<in> set ys \<Longrightarrow> \<exists>x\<in>set xs. f x = Inr y"
proof (induction xs arbitrary: ys)
  case Nil
  then show ?case by simp
next
  case (Cons x xs)
  from Cons.prems(1) obtain z zs where z: "f x = Inr z" and zs: "map_throwing f xs = Inr zs"
    and ys: "ys = z # zs"
    by (auto split: sum.splits)
  from Cons.prems(2) ys consider "y = z" | "y \<in> set zs"
    by auto
  then show ?case
  proof cases
    case 1
    with z show ?thesis by simp
  next
    case 2
    from Cons.IH [OF zs 2] show ?thesis by auto
  qed
qed

lemma collection_feature_Inr:
  assumes "collection_feature e flag f = Inr g"
  shows "\<exists>a. f_assignment f = Some a \<and> mf_id g = f_id f \<and>
           property g (utf16 ''completed'') = Bool flag \<and>
           property g (utf16 ''assignmentId'') = Num (real (a_id a))"
proof -
  have ne: "utf16 ''assignmentId'' \<noteq> utf16 ''completed''"
    by simp
  from assms obtain a geometry properties where
    a: "f_assignment f = Some a" and
    g: "g = \<lparr>mf_id = f_id f, mf_geometry = geometry,
             mf_properties =
               AList.update (utf16 ''completed'') (Bool flag)
                 (AList.update (utf16 ''assignmentId'') (Num (real (a_id a)))
                    (AList.update (utf16 ''surveyId'') (number_or_null (a_surveyId a))
                       (spread properties)))\<rparr>"
    by (auto simp: collection_feature_def split: sum.splits option.splits)
  show ?thesis
    using a ne unfolding g
    by (simp add: property_def update_conv' del: utf16_simps)
qed

lemma completedAssignments_Inr:
  assumes "completedAssignments e rows = Inr cs" and "g \<in> set cs"
  shows "property g (utf16 ''completed'') = Bool True"
proof -
  from assms(1) obtain fs where "map_throwing (collection_feature e True) fs = Inr cs"
    by (auto simp: completedAssignments_def split: sum.splits)
  from map_throwing_set [OF this assms(2)] obtain f where "collection_feature e True f = Inr g"
    by blast
  from collection_feature_Inr [OF this] show ?thesis
    by blast
qed

lemma todoAssignments_Inr:
  assumes "todoAssignments e rows = Inr ts" and "g \<in> set ts"
  shows "property g (utf16 ''completed'') = Bool False \<and>
         (\<exists>f\<in>set rows. \<exists>a. f_assignment f = Some a \<and> \<not> a_completed a \<and>
            property g (utf16 ''assignmentId'') = Num (real (a_id a)))"
proof -
  let ?p = "\<lambda>f. case assignment_completed f of Inl err \<Rightarrow> Inl err | Inr b \<Rightarrow> Inr (\<not> b)"
  from assms(1) obtain fs where fs: "filter_throwing ?p rows = Inr fs"
    and ts: "map_throwing (collection_feature e False) fs = Inr ts"
    by (auto simp: todoAssignments_def split: sum.splits)
  from map_throwing_set [OF ts assms(2)] obtain f where f: "f \<in> set fs"
    and g: "collection_feature e False f = Inr g"
    by blast
  from filter_throwing_Inr [OF fs f] have r: "f \<in> set rows" and p: "?p f = Inr True"
    by simp_all
  from collection_feature_Inr [OF g] obtain a where
    a: "f_assignment f = Some a" "property g (utf16 ''completed'') = Bool False"
       "property g (utf16 ''assignmentId'') = Num (real (a_id a))"
    by blast
  from p a(1) have "\<not> a_completed a"
    by (simp add: assignment_completed_def)
  with r a show ?thesis
    by blast
qed

text \<open>What the component holds of the feature clicked last: nothing yet, or the
  assignment and the flag of one of the features the map was given.\<close>

lemma selected_p:
  assumes "list_all (event_of shown) evs"
  shows "(p_completed (foldl (step_p layer userId) popup_initial evs) = Undef \<and>
          p_assignment (foldl (step_p layer userId) popup_initial evs) = Undef) \<or>
         (\<exists>f\<in>set shown.
            p_assignment (foldl (step_p layer userId) popup_initial evs) =
              property f (utf16 ''assignmentId'') \<and>
            p_completed (foldl (step_p layer userId) popup_initial evs) =
              property f (utf16 ''completed''))"
proof -
  let ?inv = "\<lambda>st. (p_completed st = Undef \<and> p_assignment st = Undef) \<or>
                    (\<exists>f\<in>set shown. p_assignment st = property f (utf16 ''assignmentId'') \<and>
                       p_completed st = property f (utf16 ''completed''))"
  have step: "?inv (step_p layer userId st ev)" if "?inv st" "event_of shown ev" for st ev
  proof (cases ev)
    case (Click c)
    show ?thesis
    proof (cases "hit_features c")
      case Nil
      with Click that(1) show ?thesis
        by (simp add: onFeatureClick_p_def)
    next
      case (Cons f fs)
      with Click that(2) have "f \<in> set shown"
        by simp
      with Click Cons show ?thesis
        by (auto simp: onFeatureClick_p_def)
    qed
  qed (use that(1) in \<open>simp_all add: onMove_p_def createPoint_p_def\<close>)
  have "?inv (foldl (step_p layer userId) st evs)" if "?inv st" for st
    using assms that
  proof (induction evs arbitrary: st)
    case Nil
    then show ?case by simp
  next
    case (Cons ev evs)
    from Cons.prems have "?inv (step_p layer userId st ev)"
      by (intro step) simp_all
    with Cons.IH [of "step_p layer userId st ev"] Cons.prems(1) show ?case
      by simp
  qed
  from this [of popup_initial] show ?thesis
    by (simp add: popup_initial_def)
qed

lemma selected_x:
  assumes "list_all (event_of shown) evs"
  shows "(x_completed (foldl (step_x layer userId) (crosshair_initial saved) evs) = Undef \<and>
          x_assignment (foldl (step_x layer userId) (crosshair_initial saved) evs) = Undef) \<or>
         (\<exists>f\<in>set shown.
            x_assignment (foldl (step_x layer userId) (crosshair_initial saved) evs) =
              property f (utf16 ''assignmentId'') \<and>
            x_completed (foldl (step_x layer userId) (crosshair_initial saved) evs) =
              property f (utf16 ''completed''))"
proof -
  let ?inv = "\<lambda>st. (x_completed st = Undef \<and> x_assignment st = Undef) \<or>
                    (\<exists>f\<in>set shown. x_assignment st = property f (utf16 ''assignmentId'') \<and>
                       x_completed st = property f (utf16 ''completed''))"
  have step: "?inv (step_x layer userId st ev)" if "?inv st" "event_of shown ev" for st ev
  proof (cases ev)
    case (Click c)
    show ?thesis
    proof (cases "hit_features c")
      case Nil
      with Click that(1) show ?thesis
        by (simp add: onFeatureClick_x_def)
    next
      case (Cons f fs)
      with Click that(2) have "f \<in> set shown"
        by simp
      with Click Cons show ?thesis
        by (auto simp: onFeatureClick_x_def)
    qed
  qed (use that(1) in \<open>simp_all add: onMove_x_def onZoom_x_def createPoint_x_def\<close>)
  have "?inv (foldl (step_x layer userId) st evs)" if "?inv st" for st
    using assms that
  proof (induction evs arbitrary: st)
    case Nil
    then show ?case by simp
  next
    case (Cons ev evs)
    from Cons.prems have "?inv (step_x layer userId st ev)"
      by (intro step) simp_all
    with Cons.IH [of "step_x layer userId st ev"] Cons.prems(1) show ?case
      by simp
  qed
  from this [of "crosshair_initial saved"] show ?thesis
    by (simp add: crosshair_initial_def)
qed

lemma offered_todo:
  assumes cs: "completedAssignments e rows = Inr cs" and ts: "todoAssignments e rows = Inr ts"
    and sel: "(completed = Undef \<and> assignment = Undef) \<or>
              (\<exists>f\<in>set (cs @ ts). assignment = property f (utf16 ''assignmentId'') \<and>
                 completed = property f (utf16 ''completed''))"
    and off: "\<not> truthy completed" "truthy assignment"
  shows "\<exists>f\<in>set rows. \<exists>a. f_assignment f = Some a \<and> \<not> a_completed a \<and>
           assignment = Num (real (a_id a))"
proof -
  from sel off(2) obtain g where g: "g \<in> set (cs @ ts)"
    "assignment = property g (utf16 ''assignmentId'')"
    "completed = property g (utf16 ''completed'')"
    by (auto simp: truthy_def)
  have "g \<notin> set cs"
  proof
    assume "g \<in> set cs"
    from completedAssignments_Inr [OF cs this] g(3) off(1) show False
      by (simp add: truthy_def)
  qed
  with g(1) have "g \<in> set ts"
    by simp
  from todoAssignments_Inr [OF ts this] g(2) show ?thesis
    by auto
qed


text \<open>
  C9. The completed flag of an assignment, once true, is true in every later state,
  whatever is written in between (layer creation, a field-added point, a completion): it
  goes from false to true at most once and never back. And both task maps offer Complete
  Survey only for an assignment that was not completed when the map was loaded: the one
  of the feature clicked last, taken from the \<open>todo\<close> collection.
\<close>

theorem completed_never_reverts:
  assumes "completedAssignments e rows = Inr cs" and "todoAssignments e rows = Inr ts"
    and "list_all (event_of (cs @ ts)) evs"
  shows "sorted_wrt (\<lambda>a b. a = Some True \<longrightarrow> b = Some True)
           (map (\<lambda>s. completed_flag s k) (states e' d ops)) \<and>
         (\<forall>aid. complete_survey_p (foldl (step_p layer userId) popup_initial evs) = Some aid \<longrightarrow>
            (\<exists>f\<in>set rows. \<exists>a. f_assignment f = Some a \<and> \<not> a_completed a \<and>
               aid = Num (real (a_id a)))) \<and>
         (\<forall>aid. complete_survey_x (foldl (step_x layer userId) (crosshair_initial saved) evs) =
              Some aid \<longrightarrow>
            (\<exists>f\<in>set rows. \<exists>a. f_assignment f = Some a \<and> \<not> a_completed a \<and>
               aid = Num (real (a_id a))))"
proof (intro conjI allI impI)
  show "sorted_wrt (\<lambda>a b. a = Some True \<longrightarrow> b = Some True)
          (map (\<lambda>s. completed_flag s k) (states e' d ops))"
    by (rule flags_monotone)
next
  fix aid
  let ?st = "foldl (step_p layer userId) popup_initial evs"
  assume "complete_survey_p ?st = Some aid"
  then have off: "\<not> truthy (p_completed ?st)" "truthy (p_assignment ?st)"
    and aid: "aid = p_assignment ?st"
    by (auto simp: complete_survey_p_def split: if_splits)
  from offered_todo [OF assms(1,2) selected_p [OF assms(3)] off] aid
  show "\<exists>f\<in>set rows. \<exists>a. f_assignment f = Some a \<and> \<not> a_completed a \<and>
          aid = Num (real (a_id a))"
    by simp
next
  fix aid
  let ?st = "foldl (step_x layer userId) (crosshair_initial saved) evs"
  assume "complete_survey_x ?st = Some aid"
  then have off: "\<not> truthy (x_completed ?st)" "truthy (x_assignment ?st)"
    and aid: "aid = x_assignment ?st"
    by (auto simp: complete_survey_x_def split: if_splits)
  from offered_todo [OF assms(1,2) selected_x [OF assms(3)] off] aid
  show "\<exists>f\<in>set rows. \<exists>a. f_assignment f = Some a \<and> \<not> a_completed a \<and>
          aid = Num (real (a_id a))"
    by simp
qed

lemma sample_collections:
  "completedAssignments sample_env [sample_feature 1 True, sample_feature 2 False] =
     Inr [sample_shown 1 True]"
  "todoAssignments sample_env [sample_feature 1 True, sample_feature 2 False] =
     Inr [sample_shown 2 False]"
  by (simp_all add: completedAssignments_def todoAssignments_def assignment_completed_def
      collection_feature_def member_def sample_feature_def sample_shown_def spread_def
      number_or_null_def)

lemma sample_click:
  "complete_survey_p
     (foldl (step_p sample_layer 7) popup_initial
        [Click \<lparr>lngLat = \<lparr>lng = -122.5, lat = 37.7\<rparr>,
                hit_features = [sample_shown 2 False]\<rparr>]) = Some (Num 2)"
  "complete_survey_x
     (foldl (step_x sample_layer 7) (crosshair_initial None)
        [Click \<lparr>lngLat = \<lparr>lng = -122.5, lat = 37.7\<rparr>,
                hit_features = [sample_shown 2 False]\<rparr>]) = Some (Num 2)"
  "complete_survey_p
     (foldl (step_p sample_layer 7) popup_initial
        [Click \<lparr>lngLat = \<lparr>lng = -122.5, lat = 37.7\<rparr>,
                hit_features = [sample_shown 1 True]\<rparr>]) = None"
  by (simp_all add: complete_survey_p_def complete_survey_x_def onFeatureClick_p_def
      onFeatureClick_x_def popup_initial_def crosshair_initial_def sample_shown_def
      property_def truthy_def)

lemma sample_flags:
  "map (\<lambda>s. completed_flag s 1)
     (states sample_env sample_db2 [CompleteSurvey 2, CompleteSurvey 2]) =
     [Some False, Some True, Some True]"
  by (simp add: completed_flag_def complete_survey_def sample_db2_def sample_feature_def)

theorem completed_never_reverts_witness:
  "completedAssignments sample_env [sample_feature 1 True, sample_feature 2 False] =
     Inr [sample_shown 1 True] \<and>
   todoAssignments sample_env [sample_feature 1 True, sample_feature 2 False] =
     Inr [sample_shown 2 False] \<and>
   list_all (event_of ([sample_shown 1 True] @ [sample_shown 2 False]))
     [Click \<lparr>lngLat = \<lparr>lng = -122.5, lat = 37.7\<rparr>, hit_features = [sample_shown 2 False]\<rparr>] \<and>
   complete_survey_p
     (foldl (step_p sample_layer 7) popup_initial
        [Click \<lparr>lngLat = \<lparr>lng = -122.5, lat = 37.7\<rparr>,
                hit_features = [sample_shown 2 False]\<rparr>]) = Some (Num 2) \<and>
   (\<exists>f\<in>set [sample_feature 1 True, sample_feature 2 False].
      \<exists>a. f_assignment f = Some a \<and> \<not> a_completed a \<and> Num 2 = Num (real (a_id a))) \<and>
   map (\<lambda>s. completed_flag s 1)
     (states sample_env sample_db2 [CompleteSurvey 2, CompleteSurvey 2]) =
     [Some False, Some True, Some True] \<and>
   sorted_wrt (\<lambda>a b. a = Some True \<longrightarrow> b = Some True) [Some False, Some True, Some True]"
proof -
  have ev: "list_all (event_of ([sample_shown 1 True] @ [sample_shown 2 False]))
     [Click \<lparr>lngLat = \<lparr>lng = -122.5, lat = 37.7\<rparr>, hit_features = [sample_shown 2 False]\<rparr>]"
    by simp
  note t = completed_never_reverts [OF sample_collections ev,
      of 1 sample_env sample_db2 "[CompleteSurvey 2, CompleteSurvey 2]" sample_layer 7 None]
  from t have "sorted_wrt (\<lambda>a b. a = Some True \<longrightarrow> b = Some True)
      [Some False, Some True, Some True]"
    unfolding sample_flags by (rule conjunct1)
  moreover from t sample_click(1) have
    "\<exists>f\<in>set [sample_feature 1 True, sample_feature 2 False].
       \<exists>a. f_assignment f = Some a \<and> \<not> a_completed a \<and> Num 2 = Num (real (a_id a))"
    by blast
  ultimately show ?thesis
    using sample_collections ev sample_click(1) sample_flags
    by (intro conjI)
qed

end
